theory Spec2Isabelle
  imports Main "HOL-Library.Sublist"
begin

section \<open>Rate limiter (route.ts, checkRateLimit)\<close>

text \<open>
  The table \<open>rateLimits\<close> is a \<open>Map\<close> from client identity to an object
  \<open>{ count, resetTime }\<close>. The clock \<open>Date.now()\<close> is an integer number of
  milliseconds and is passed in as \<open>now\<close>. The function mutates the table, so the
  model returns the answer together with the table afterwards. \<open>limit.count++\<close>
  updates the object held by the table, which is the map update written below.
\<close>

record limit =
  count :: int
  resetTime :: int

type_synonym rateLimits = "string \<rightharpoonup> limit"

definition MAX_DOWNLOADS_PER_HOUR :: int where
  "MAX_DOWNLOADS_PER_HOUR = 5"

definition checkRateLimit :: "int \<Rightarrow> string \<Rightarrow> rateLimits \<Rightarrow> bool \<times> rateLimits" where
  "checkRateLimit now clientId tbl =
     (case tbl clientId of
        None \<Rightarrow> (True, tbl(clientId \<mapsto> \<lparr>count = 1, resetTime = now + 3600000\<rparr>))
      | Some lim \<Rightarrow>
          if now > resetTime lim
          then (True, tbl(clientId \<mapsto> \<lparr>count = 1, resetTime = now + 3600000\<rparr>))
          else if count lim \<ge> MAX_DOWNLOADS_PER_HOUR then (False, tbl)
          else (True, tbl(clientId \<mapsto> lim\<lparr>count := count lim + 1\<rparr>)))"

text \<open>
  A timed sequence of admission requests of one client: each request is decided by
  \<open>checkRateLimit\<close> on the table the previous one left. The result lists, for each
  request, its time, the decision, and the window expiry that the table holds for the
  client after the decision.
\<close>

fun requests :: "string \<Rightarrow> int list \<Rightarrow> rateLimits \<Rightarrow> (int \<times> bool \<times> int) list" where
  "requests clientId [] tbl = []"
| "requests clientId (t # ts) tbl =
     (let (ok, tbl') = checkRateLimit t clientId tbl
      in (t, ok, (case tbl' clientId of None \<Rightarrow> 0 | Some lim \<Rightarrow> resetTime lim))
           # requests clientId ts tbl')"






section \<open>JavaScript strings\<close>

text \<open>
  A JavaScript string is modelled as a \<open>string\<close> whose characters are the UTF-16 code
  units below 256 (ASCII and Latin-1), which covers the output of the downloader, file
  names made of a UUID and an extension, and header text. Among these code units the
  class \<open>\s\<close> of regular expressions, the white space removed by \<open>trim\<close> and the white
  space skipped by \<open>parseInt\<close> are the same seven characters.
\<close>

definition isSpace :: "char \<Rightarrow> bool" where
  "isSpace c \<longleftrightarrow> (of_char c :: nat) \<in> {9, 10, 11, 12, 13, 32, 160}"

definition isDigit :: "char \<Rightarrow> bool" where
  "isDigit c \<longleftrightarrow> 48 \<le> (of_char c :: nat) \<and> (of_char c :: nat) \<le> 57"

definition startsWith :: "string \<Rightarrow> string \<Rightarrow> bool" where
  "startsWith s p = prefix p s"

fun includesStr :: "string \<Rightarrow> string \<Rightarrow> bool" where
  "includesStr [] p = (p = [])"
| "includesStr (c # cs) p = (prefix p (c # cs) \<or> includesStr cs p)"

text \<open>
  \<open>s.replace(pat, rep)\<close> for a pattern that is a string, or a regular expression that is
  a plain word, and a replacement without \<open>$\<close>: the first occurrence is replaced.
\<close>

fun replaceStr :: "string \<Rightarrow> string \<Rightarrow> string \<Rightarrow> string" where
  "replaceStr pat rep [] = (if pat = [] then rep else [])"
| "replaceStr pat rep (c # cs) =
     (if prefix pat (c # cs) then rep @ drop (length pat) (c # cs)
      else c # replaceStr pat rep cs)"

definition trim :: "string \<Rightarrow> string" where
  "trim s = rev (dropWhile isSpace (rev (dropWhile isSpace s)))"

fun split :: "char \<Rightarrow> string \<Rightarrow> string list" where
  "split sep [] = [[]]"
| "split sep (c # cs) =
     (if c = sep then [] # split sep cs
      else (case split sep cs of [] \<Rightarrow> [[c]] | p # ps \<Rightarrow> (c # p) # ps))"

definition toLowerCase :: "string \<Rightarrow> string" where
  "toLowerCase s =
     map (\<lambda>c. let n = (of_char c :: nat)
              in if (65 \<le> n \<and> n \<le> 90) \<or> (192 \<le> n \<and> n \<le> 222 \<and> n \<noteq> 215)
                 then char_of (n + 32) else c) s"

definition digitValue :: "string \<Rightarrow> nat" where
  "digitValue ds = foldl (\<lambda>a c. 10 * a + ((of_char c :: nat) - 48)) 0 ds"

text \<open>
  \<open>parseInt(s, 10)\<close>: white space, an optional sign, then the longest run of digits;
  \<open>None\<close> is \<open>NaN\<close>.
\<close>

definition parseInt :: "string \<Rightarrow> int option" where
  "parseInt s =
     (let s1 = dropWhile isSpace s;
          (sign, s2) = (case s1 of [] \<Rightarrow> (1, s1)
                        | c # r \<Rightarrow> if c = CHR ''-'' then (- 1, r)
                                  else if c = CHR ''+'' then (1, r) else (1, s1));
          ds = takeWhile isDigit s2
      in if ds = [] then None else Some (sign * int (digitValue ds)))"

text \<open>Decimal text of an integer, as a template literal or \<open>toString\<close> prints it.\<close>

fun showNat :: "nat \<Rightarrow> string" where
  "showNat n = (if n < 10 then [char_of (48 + n)]
                else showNat (n div 10) @ [char_of (48 + n mod 10)])"

declare showNat.simps [simp del]

definition showInt :: "int \<Rightarrow> string" where
  "showInt i = (if i < 0 then CHR ''-'' # showNat (nat (- i)) else showNat (nat i))"

section \<open>Progress parser (route.ts, parseProgress)\<close>

text \<open>
  The number held by \<open>percentage\<close> is \<open>parseFloat\<close> of the first capture; it is kept
  as that application, so no rounding is modelled.
\<close>

datatype number = ParseFloat string

record DownloadProgress =
  percentage :: number
  speed :: string
  eta :: string
  size' :: string

text \<open>
  The regular expression is
  \<^verbatim>\<open>\[download\]\s+(\d+\.?\d*)%\s+of\s+([^\s]+)\s+at\s+([^\s]+)\s+ETA\s+([^\s]+)\<close>.
  Each piece is followed by a character outside its own class, so at a given start
  position the greedy run is the only way to match; the matcher below takes the longest
  run for every piece. \<open>search\<close> tries the start positions from left to right, as
  \<open>String.prototype.match\<close> does for a pattern without the global flag.
\<close>

definition lit :: "string \<Rightarrow> string \<Rightarrow> string option" where
  "lit p s = (if prefix p s then Some (drop (length p) s) else None)"

definition spaces1 :: "string \<Rightarrow> string option" where
  "spaces1 s = (if takeWhile isSpace s = [] then None else Some (dropWhile isSpace s))"

definition token :: "string \<Rightarrow> (string \<times> string) option" where
  "token s = (if takeWhile (\<lambda>c. \<not> isSpace c) s = [] then None
              else Some (takeWhile (\<lambda>c. \<not> isSpace c) s, dropWhile (\<lambda>c. \<not> isSpace c) s))"

definition percent :: "string \<Rightarrow> (string \<times> string) option" where
  "percent s =
     (let d1 = takeWhile isDigit s; r1 = dropWhile isDigit s
      in if d1 = [] then None
         else (case r1 of
                 [] \<Rightarrow> Some (d1, r1)
               | c # r2 \<Rightarrow>
                   if c = CHR ''.''
                   then Some (d1 @ [c] @ takeWhile isDigit r2, dropWhile isDigit r2)
                   else Some (d1, r1)))"

definition matchHere :: "string \<Rightarrow> (string \<times> string \<times> string \<times> string) option" where
  "matchHere s0 =
     Option.bind (lit ''[download]'' s0) (\<lambda>s1.
     Option.bind (spaces1 s1) (\<lambda>s2.
     Option.bind (percent s2) (\<lambda>(m1, s3).
     Option.bind (lit ''%'' s3) (\<lambda>s4.
     Option.bind (spaces1 s4) (\<lambda>s5.
     Option.bind (lit ''of'' s5) (\<lambda>s6.
     Option.bind (spaces1 s6) (\<lambda>s7.
     Option.bind (token s7) (\<lambda>(m2, s8).
     Option.bind (spaces1 s8) (\<lambda>s9.
     Option.bind (lit ''at'' s9) (\<lambda>s10.
     Option.bind (spaces1 s10) (\<lambda>s11.
     Option.bind (token s11) (\<lambda>(m3, s12).
     Option.bind (spaces1 s12) (\<lambda>s13.
     Option.bind (lit ''ETA'' s13) (\<lambda>s14.
     Option.bind (spaces1 s14) (\<lambda>s15.
     Option.bind (token s15) (\<lambda>(m4, s16).
       Some (m1, m2, m3, m4)))))))))))))))))"

fun search :: "string \<Rightarrow> (string \<times> string \<times> string \<times> string) option" where
  "search [] = matchHere []"
| "search (c # cs) = (case matchHere (c # cs) of Some m \<Rightarrow> Some m | None \<Rightarrow> search cs)"

definition parseProgress :: "string \<Rightarrow> DownloadProgress option" where
  "parseProgress line =
     (case search line of
        Some (m1, m2, m3, m4) \<Rightarrow>
          Some \<lparr>percentage = ParseFloat m1, speed = m3, eta = m4, size' = m2\<rparr>
      | None \<Rightarrow> None)"






section \<open>File system, timers and tables (route.ts)\<close>

text \<open>
  Exceptions that the handlers can meet: \<open>TypeError\<close> from a stream controller that is
  already closed or from an invalid header value, \<open>URIError\<close> from
  \<open>decodeURIComponent\<close>, \<open>RangeError\<close> from the options of \<open>createReadStream\<close>, and
  \<open>FsError\<close> from the file system.
\<close>

datatype exn = TypeError | URIError | RangeError | FsError

text \<open>
  The directory \<open>/tmp/youtube-downloads\<close> is a list of entries in the order
  \<open>readdirSync\<close> returns them; the handlers use it only after \<open>POST\<close> has created it.
  An entry holds the bytes of the file and whether removing it fails (\<open>unlinkSync\<close>
  throws, for instance for lack of permission).
\<close>

record entry =
  content :: string
  locked :: bool

record download =
  process :: nat
  startTime :: int

record timeout =
  due :: int
  cleanupPath :: string
  cleanupId :: string

text \<open>
  The state shared by all requests: the clock, the two module-level maps
  \<open>activeDownloads\<close> and \<open>fileCleanupTimers\<close> (whose values are handles of runtime
  timers), the timers that the runtime holds pending with the next free handle, the
  directory, and the signals sent to child processes.
\<close>

record world =
  clock :: int
  activeDownloads :: "string \<rightharpoonup> download"
  fileCleanupTimers :: "string \<rightharpoonup> nat"
  timeouts :: "(nat \<times> timeout) list"
  nextTimer :: nat
  files :: "(string \<times> entry) list"
  signals :: "(nat \<times> string) list"

definition tempDir :: string where
  "tempDir = ''/tmp/youtube-downloads''"

text \<open>\<open>path.join\<close> of the directory and an entry name returned by \<open>readdirSync\<close>.\<close>

definition join :: "string \<Rightarrow> string \<Rightarrow> string" where
  "join dir name = dir @ ''/'' @ name"

definition entryOf :: "string \<Rightarrow> string option" where
  "entryOf p = lit (tempDir @ ''/'') p"

definition readdirSync :: "world \<Rightarrow> string list" where
  "readdirSync w = map fst (files w)"

definition existsSync :: "string \<Rightarrow> world \<Rightarrow> bool" where
  "existsSync p w = (case entryOf p of None \<Rightarrow> False | Some n \<Rightarrow> n \<in> set (readdirSync w))"

definition statSync :: "string \<Rightarrow> world \<Rightarrow> exn + nat" where
  "statSync p w =
     (case entryOf p of
        None \<Rightarrow> Inl FsError
      | Some n \<Rightarrow> (case map_of (files w) n of
                     None \<Rightarrow> Inl FsError
                   | Some f \<Rightarrow> Inr (length (content f))))"

definition unlinkSync :: "string \<Rightarrow> world \<Rightarrow> exn + world" where
  "unlinkSync p w =
     (case entryOf p of
        None \<Rightarrow> Inl FsError
      | Some n \<Rightarrow> (case map_of (files w) n of
                     None \<Rightarrow> Inl FsError
                   | Some f \<Rightarrow> if locked f then Inl FsError
                              else Inr (w\<lparr>files := filter (\<lambda>(m, _). m \<noteq> n) (files w)\<rparr>)))"

definition setTimeout :: "timeout \<Rightarrow> world \<Rightarrow> nat \<times> world" where
  "setTimeout tm w =
     (nextTimer w, w\<lparr>timeouts := timeouts w @ [(nextTimer w, tm)], nextTimer := Suc (nextTimer w)\<rparr>)"

definition clearTimeout :: "nat \<Rightarrow> world \<Rightarrow> world" where
  "clearTimeout h w = w\<lparr>timeouts := filter (\<lambda>(k, _). k \<noteq> h) (timeouts w)\<rparr>"

text \<open>The callback that \<open>scheduleFileCleanup\<close> hands to \<open>setTimeout\<close>.\<close>

definition cleanupCallback :: "string \<Rightarrow> string \<Rightarrow> world \<Rightarrow> world" where
  "cleanupCallback filePath downloadId w =
     (if existsSync filePath w
      then (case unlinkSync filePath w of
              Inl e \<Rightarrow> w
            | Inr w1 \<Rightarrow> w1\<lparr>fileCleanupTimers := (fileCleanupTimers w1)(downloadId := None)\<rparr>)
      else w\<lparr>fileCleanupTimers := (fileCleanupTimers w)(downloadId := None)\<rparr>)"

definition scheduleFileCleanup :: "string \<Rightarrow> string \<Rightarrow> world \<Rightarrow> world" where
  "scheduleFileCleanup filePath downloadId w =
     (let (timer, w1) = setTimeout \<lparr>due = clock w + 3 * 60 * 1000, cleanupPath = filePath,
                                    cleanupId = downloadId\<rparr> w
      in w1\<lparr>fileCleanupTimers := (fileCleanupTimers w1)(downloadId \<mapsto> timer)\<rparr>)"

text \<open>
  The runtime fires a pending timer once: the timer leaves the pending list and its
  callback runs. When the clock moves to \<open>t\<close>, the timers due by then fire in the order of
  their due times, timers with equal due times in the order of their creation.
\<close>

definition fireTimer :: "nat \<Rightarrow> world \<Rightarrow> world" where
  "fireTimer h w =
     (case map_of (timeouts w) h of
        None \<Rightarrow> w
      | Some tm \<Rightarrow> cleanupCallback (cleanupPath tm) (cleanupId tm) (clearTimeout h w))"


definition dueBy :: "int \<Rightarrow> world \<Rightarrow> nat list" where
  "dueBy t w =
     map fst (sort_key (\<lambda>(h, tm). due tm) (filter (\<lambda>(h, tm). due tm \<le> t) (timeouts w)))"

definition elapse :: "int \<Rightarrow> world \<Rightarrow> world" where
  "elapse t w = foldl (\<lambda>v h. fireTimer h v) (w\<lparr>clock := max t (clock w)\<rparr>) (dueBy t w)"

section \<open>Event stream (route.ts, POST)\<close>

text \<open>
  The chunks enqueued on the stream of one job, in order, as the objects that are
  serialised: \<open>started\<close> and \<open>processing\<close> with their message, \<open>progress\<close> with the
  parsed record, \<open>complete\<close> with filename, size and download URL, \<open>error\<close> with its
  text. All carry the download id first. \<open>enqueue\<close> and \<open>close\<close> throw a \<open>TypeError\<close>
  on a controller that is already closed and change nothing then. The consumer of the
  stream is taken to stay connected for as long as the job runs.
\<close>

datatype event =
    Started string string
  | Progress string DownloadProgress
  | Processing string string
  | Complete string string string string
  | Error string string

record controller =
  queue :: "event list"
  closed :: bool

type_synonym 'a outcome = "exn option \<times> 'a"

definition enqueue :: "event \<Rightarrow> controller \<Rightarrow> controller outcome" where
  "enqueue e c = (if closed c then (Some TypeError, c) else (None, c\<lparr>queue := queue c @ [e]\<rparr>))"

definition closeController :: "controller \<Rightarrow> controller outcome" where
  "closeController c = (if closed c then (Some TypeError, c) else (None, c\<lparr>closed := True\<rparr>))"

fun isTerminal :: "event \<Rightarrow> bool" where
  "isTerminal (Complete _ _ _ _) = True"
| "isTerminal (Error _ _) = True"
| "isTerminal _ = False"

fun isStarted :: "event \<Rightarrow> bool" where
  "isStarted (Started _ _) = True"
| "isStarted _ = False"

fun isProcessing :: "event \<Rightarrow> bool" where
  "isProcessing (Processing _ _) = True"
| "isProcessing _ = False"

fun isProgress :: "event \<Rightarrow> bool" where
  "isProgress (Progress _ _) = True"
| "isProgress _ = False"

fun isComplete :: "event \<Rightarrow> bool" where
  "isComplete (Complete _ _ _ _) = True"
| "isComplete _ = False"

text \<open>
  \<open>(stats.size / (1024 * 1024)).toFixed(2)\<close>. A file size is an integer below \<open>2^53\<close>
  and the division by a power of two is exact, so \<open>toFixed\<close> yields the integer \<open>n\<close>
  nearest to a hundred times the quotient, the larger one on a tie, printed with two
  decimals.
\<close>

definition fileSizeInMB :: "nat \<Rightarrow> string" where
  "fileSizeInMB sz =
     (let n = (int sz * 200 + 1048576) div 2097152
      in showInt (n div 100) @ ''.'' @ showInt (n mod 100 div 10) @ showInt (n mod 10))"

definition hexDigit :: "nat \<Rightarrow> char" where
  "hexDigit n = (if n < 10 then char_of (48 + n) else char_of (55 + n))"

definition percentByte :: "nat \<Rightarrow> string" where
  "percentByte b = [CHR ''%'', hexDigit (b div 16), hexDigit (b mod 16)]"

definition unreserved :: "char \<Rightarrow> bool" where
  "unreserved c \<longleftrightarrow>
     (let n = (of_char c :: nat)
      in (65 \<le> n \<and> n \<le> 90) \<or> (97 \<le> n \<and> n \<le> 122) \<or> (48 \<le> n \<and> n \<le> 57)
         \<or> c \<in> set ''-_.!~*'()'')"

definition encodeURIComponent :: "string \<Rightarrow> string" where
  "encodeURIComponent s =
     concat (map (\<lambda>c. let n = (of_char c :: nat)
                       in if unreserved c then [c]
                          else if n < 128 then percentByte n
                          else percentByte (192 + n div 64) @ percentByte (128 + n mod 64)) s)"

definition newline :: char where
  "newline = char_of (10 :: nat)"

definition onLine :: "string \<Rightarrow> string \<Rightarrow> controller \<Rightarrow> controller outcome" where
  "onLine downloadId line c =
     (if trim line = [] then (None, c)
      else (case (case parseProgress line of
                    Some progress \<Rightarrow> enqueue (Progress downloadId progress) c
                  | None \<Rightarrow> (None, c)) of
              (Some e, c1) \<Rightarrow> (Some e, c1)
            | (None, c1) \<Rightarrow>
                if includesStr line ''[download] 100%''
                   \<or> includesStr line ''has already been downloaded''
                then enqueue (Processing downloadId ''Processing file...'') c1
                else (None, c1)))"

fun onLines :: "string \<Rightarrow> string list \<Rightarrow> controller \<Rightarrow> controller outcome" where
  "onLines downloadId [] c = (None, c)"
| "onLines downloadId (line # lines) c =
     (case onLine downloadId line c of
        (Some e, c1) \<Rightarrow> (Some e, c1)
      | (None, c1) \<Rightarrow> onLines downloadId lines c1)"

text \<open>The body of \<open>start(controller)\<close> up to the registration of the listeners.\<close>

definition start :: "string \<Rightarrow> nat \<Rightarrow> world \<Rightarrow> (controller \<times> world) outcome" where
  "start downloadId ytDlpProcess w =
     (let w1 = w\<lparr>activeDownloads :=
                    (activeDownloads w)(downloadId \<mapsto>
                       \<lparr>process = ytDlpProcess, startTime = clock w\<rparr>)\<rparr>;
          (x, c) = enqueue (Started downloadId ''Starting download...'')
                     \<lparr>queue = [], closed = False\<rparr>
      in (x, c, w1))"

definition onStdout :: "string \<Rightarrow> string \<Rightarrow> controller \<times> world \<Rightarrow> (controller \<times> world) outcome" where
  "onStdout downloadId data cw =
     (let (x, c1) = onLines downloadId (split newline data) (fst cw) in (x, c1, snd cw))"

definition onStderr :: "string \<Rightarrow> string \<Rightarrow> controller \<times> world \<Rightarrow> (controller \<times> world) outcome" where
  "onStderr downloadId errorLine cw =
     (let c = fst cw; w = snd cw
      in if includesStr errorLine ''ERROR''
         then (case enqueue (Error downloadId (''Download failed: '' @ errorLine)) c of
                 (Some e, c1) \<Rightarrow> (Some e, c1, w)
               | (None, c1) \<Rightarrow>
                   (case closeController c1 of
                      (Some e, c2) \<Rightarrow> (Some e, c2, w)
                    | (None, c2) \<Rightarrow>
                        (None, c2, w\<lparr>activeDownloads := (activeDownloads w)(downloadId := None)\<rparr>)))
         else (None, c, w))"

text \<open>The \<open>try\<close> block of the \<open>close\<close> listener, taken when the exit code is 0.\<close>

definition locateFile :: "string \<Rightarrow> controller \<times> world \<Rightarrow> (controller \<times> world) outcome" where
  "locateFile downloadId cw =
     (let c = fst cw; w = snd cw
      in case find (\<lambda>f. startsWith f downloadId) (readdirSync w) of
           Some downloadedFile \<Rightarrow>
             (let outputPath = join tempDir downloadedFile;
                  finalFilename = replaceStr (downloadId @ ''.'') [] downloadedFile
              in case statSync outputPath w of
                   Inl e \<Rightarrow> (Some e, c, w)
                 | Inr sz \<Rightarrow>
                     (let w1 = scheduleFileCleanup outputPath downloadId w;
                          (x, c1) = enqueue (Complete downloadId finalFilename
                                      (fileSizeInMB sz @ '' MB'')
                                      (''/api/download-file/'' @ downloadId @ ''/''
                                         @ encodeURIComponent finalFilename)) c
                      in (x, c1, w1)))
         | None \<Rightarrow>
             (let (x, c1) = enqueue (Error downloadId ''Downloaded file not found'') c
              in (x, c1, w)))"

definition showCode :: "int option \<Rightarrow> string" where
  "showCode code = (case code of None \<Rightarrow> ''null'' | Some n \<Rightarrow> showInt n)"

definition onClose :: "string \<Rightarrow> int option \<Rightarrow> controller \<times> world \<Rightarrow> (controller \<times> world) outcome" where
  "onClose downloadId code cw =
     (let c = fst cw;
          w = (snd cw)\<lparr>activeDownloads := (activeDownloads (snd cw))(downloadId := None)\<rparr>;
          (x, c1, w1) =
            (if code = Some 0
             then (case locateFile downloadId (c, w) of
                     (Some e, c2, w2) \<Rightarrow>
                       (let (y, c3) = enqueue (Error downloadId
                                        ''Error processing downloaded file'') c2
                        in (y, c3, w2))
                   | (None, c2, w2) \<Rightarrow> (None, c2, w2))
             else (let (y, c2) = enqueue (Error downloadId
                                   (''Download failed with code '' @ showCode code)) c
                   in (y, c2, w)))
      in case x of
           Some e \<Rightarrow> (Some e, c1, w1)
         | None \<Rightarrow> (let (y, c2) = closeController c1 in (y, c2, w1)))"

definition onError :: "string \<Rightarrow> string \<Rightarrow> controller \<times> world \<Rightarrow> (controller \<times> world) outcome" where
  "onError downloadId message cw =
     (let c = fst cw;
          w = (snd cw)\<lparr>activeDownloads := (activeDownloads (snd cw))(downloadId := None)\<rparr>
      in case enqueue (Error downloadId (''Failed to start download: '' @ message)) c of
           (Some e, c1) \<Rightarrow> (Some e, c1, w)
         | (None, c1) \<Rightarrow> (let (y, c2) = closeController c1 in (y, c2, w)))"

text \<open>
  What can happen to a job after \<open>start\<close>: the child process writes to its output or
  error stream, exits (\<open>code\<close> is \<open>null\<close> when a signal ended it), or fails to spawn;
  and time passes. An exception that escapes a listener is not handled by the route;
  the run below keeps the state the listener had reached and goes on, and a server that
  stops instead has run a prefix.
\<close>

datatype action =
    StdoutData string
  | StderrData string
  | Close "int option"
  | ProcError string
  | Elapse int

fun step :: "string \<Rightarrow> action \<Rightarrow> controller \<times> world \<Rightarrow> controller \<times> world" where
  "step downloadId (StdoutData d) cw = snd (onStdout downloadId d cw)"
| "step downloadId (StderrData d) cw = snd (onStderr downloadId d cw)"
| "step downloadId (Close code) cw = snd (onClose downloadId code cw)"
| "step downloadId (ProcError m) cw = snd (onError downloadId m cw)"
| "step downloadId (Elapse t) cw = (fst cw, elapse t (snd cw))"

fun run :: "string \<Rightarrow> action list \<Rightarrow> controller \<times> world \<Rightarrow> controller \<times> world" where
  "run downloadId [] cw = cw"
| "run downloadId (a # as) cw = run downloadId as (step downloadId a cw)"

section \<open>Cancellation (route.ts, DELETE)\<close>

datatype payload = JsonMessage string | JsonError string | Bytes string

record response =
  status :: nat
  headers :: "(string \<times> string) list"
  payload :: payload

definition json :: "nat \<Rightarrow> payload \<Rightarrow> response" where
  "json st p = \<lparr>status = st, headers = [(''content-type'', ''application/json'')], payload = p\<rparr>"


section \<open>Artifact server (download-file route, GET)\<close>

text \<open>
  \<open>decodeURIComponent\<close>: every \<open>%\<close> must be followed by two hexadecimal digits, and
  the bytes so written must be ASCII or form valid UTF-8, else a \<open>URIError\<close> is thrown.
  The result is a list of UTF-16 code units, which may exceed 255.
\<close>

definition hexValue :: "char \<Rightarrow> nat option" where
  "hexValue c =
     (let n = (of_char c :: nat)
      in if 48 \<le> n \<and> n \<le> 57 then Some (n - 48)
         else if 65 \<le> n \<and> n \<le> 70 then Some (n - 55)
         else if 97 \<le> n \<and> n \<le> 102 then Some (n - 87)
         else None)"

datatype item = Unit nat | Octet nat

fun unescape :: "string \<Rightarrow> exn + item list" where
  "unescape [] = Inr []"
| "unescape (c # cs) =
     (if c = CHR ''%''
      then (case cs of
              h1 # h2 # rest \<Rightarrow>
                (case (hexValue h1, hexValue h2) of
                   (Some a, Some b) \<Rightarrow>
                     (case unescape rest of
                        Inl e \<Rightarrow> Inl e
                      | Inr r \<Rightarrow> Inr (Octet (16 * a + b) # r))
                 | _ \<Rightarrow> Inl URIError)
            | _ \<Rightarrow> Inl URIError)
      else (case unescape cs of
              Inl e \<Rightarrow> Inl e
            | Inr r \<Rightarrow> Inr (Unit (of_char c) # r)))"

definition isCont :: "nat \<Rightarrow> bool" where
  "isCont b \<longleftrightarrow> 128 \<le> b \<and> b < 192"

definition emit :: "nat list \<Rightarrow> exn + nat list \<Rightarrow> exn + nat list" where
  "emit us r = (case r of Inl e \<Rightarrow> Inl e | Inr vs \<Rightarrow> Inr (us @ vs))"

definition utf16 :: "nat \<Rightarrow> nat list" where
  "utf16 cp = (if cp < 65536 then [cp]
               else [55296 + (cp - 65536) div 1024, 56320 + (cp - 65536) mod 1024])"

fun decodeItems :: "item list \<Rightarrow> exn + nat list" where
  "decodeItems [] = Inr []"
| "decodeItems (Unit n # xs) = emit [n] (decodeItems xs)"
| "decodeItems (Octet b # xs) =
     (if b < 128 then emit [b] (decodeItems xs)
      else if 192 \<le> b \<and> b < 224 then
        (case xs of
           Octet b2 # ys \<Rightarrow>
             (let cp = (b - 192) * 64 + (b2 - 128)
              in if isCont b2 \<and> 128 \<le> cp then emit (utf16 cp) (decodeItems ys)
                 else Inl URIError)
         | _ \<Rightarrow> Inl URIError)
      else if 224 \<le> b \<and> b < 240 then
        (case xs of
           Octet b2 # Octet b3 # ys \<Rightarrow>
             (let cp = (b - 224) * 4096 + (b2 - 128) * 64 + (b3 - 128)
              in if isCont b2 \<and> isCont b3 \<and> 2048 \<le> cp \<and> \<not> (55296 \<le> cp \<and> cp \<le> 57343)
                 then emit (utf16 cp) (decodeItems ys)
                 else Inl URIError)
         | _ \<Rightarrow> Inl URIError)
      else if 240 \<le> b \<and> b < 248 then
        (case xs of
           Octet b2 # Octet b3 # Octet b4 # ys \<Rightarrow>
             (let cp = (b - 240) * 262144 + (b2 - 128) * 4096 + (b3 - 128) * 64 + (b4 - 128)
              in if isCont b2 \<and> isCont b3 \<and> isCont b4 \<and> 65536 \<le> cp \<and> cp \<le> 1114111
                 then emit (utf16 cp) (decodeItems ys)
                 else Inl URIError)
         | _ \<Rightarrow> Inl URIError)
      else Inl URIError)"

definition decodeURIComponent :: "string \<Rightarrow> exn + nat list" where
  "decodeURIComponent s = (case unescape s of Inl e \<Rightarrow> Inl e | Inr xs \<Rightarrow> decodeItems xs)"

text \<open>
  The value of the \<open>Content-Disposition\<close> header. The \<open>Response\<close> constructor throws a
  \<open>TypeError\<close> for a header value that holds a code unit above 255, a NUL, a line feed
  or a carriage return.
\<close>

definition contentDisposition :: "string \<Rightarrow> exn + string" where
  "contentDisposition filename =
     (case decodeURIComponent filename of
        Inl e \<Rightarrow> Inl e
      | Inr us \<Rightarrow>
          if list_all (\<lambda>n. n < 256 \<and> n \<noteq> 0 \<and> n \<noteq> 10 \<and> n \<noteq> 13) us
          then Inr (''attachment; filename='' @ [CHR 0x22] @ map char_of us @ [CHR 0x22])
          else Inl TypeError)"

text \<open>
  \<open>createReadStream(path, { start, end })\<close> throws a \<open>RangeError\<close> unless both
  positions are integers from 0 to \<open>2^53 - 1\<close> with \<open>start \<le> end\<close> (\<open>None\<close> is \<open>NaN\<close>);
  the stream then yields the bytes of the file from \<open>start\<close> to \<open>end\<close> inclusive, as far
  as the file has them. Without options it yields the whole file.
\<close>

definition bytesOf :: "string \<Rightarrow> world \<Rightarrow> string" where
  "bytesOf p w =
     (case entryOf p of
        None \<Rightarrow> []
      | Some n \<Rightarrow> (case map_of (files w) n of None \<Rightarrow> [] | Some f \<Rightarrow> content f))"

definition createReadStream :: "string \<Rightarrow> (int option \<times> int option) option \<Rightarrow> world \<Rightarrow> exn + string" where
  "createReadStream p opts w =
     (case opts of
        None \<Rightarrow> Inr (bytesOf p w)
      | Some (Some s, Some e) \<Rightarrow>
          if 0 \<le> s \<and> s \<le> 9007199254740991 \<and> 0 \<le> e \<and> e \<le> 9007199254740991 \<and> s \<le> e
          then Inr (take (nat (e - s + 1)) (drop (nat s) (bytesOf p w)))
          else Inl RangeError
      | Some _ \<Rightarrow> Inl RangeError)"

definition contentTypeOf :: "string \<Rightarrow> string" where
  "contentTypeOf actualFilename =
     (let ext = toLowerCase (last (split CHR ''.'' actualFilename))
      in if ext = ''mp4'' then ''video/mp4''
         else if ext = ''mp3'' then ''audio/mpeg''
         else if ext = ''webm'' then ''video/webm''
         else if ext = ''m4a'' then ''audio/mp4''
         else ''application/octet-stream'')"

definition notFound :: response where
  "notFound = json 404 (JsonError ''File not found or has expired'')"

definition failed :: response where
  "failed = json 500 (JsonError ''Failed to download file'')"

text \<open>The branch for a request with a \<open>Range\<close> header.\<close>

definition partial :: "string \<Rightarrow> string \<Rightarrow> string \<Rightarrow> nat \<Rightarrow> string \<Rightarrow> world \<Rightarrow> response" where
  "partial filePath filename rangeHeader fileSize contentType w =
     (let parts = split CHR ''-'' (replaceStr ''bytes='' [] rangeHeader);
          rangeStart = (case parts of [] \<Rightarrow> None | p0 # _ \<Rightarrow> parseInt p0);
          rangeEnd = (case parts of
                        _ # p1 # _ \<Rightarrow> if p1 \<noteq> [] then parseInt p1
                                      else Some (int fileSize - 1)
                      | _ \<Rightarrow> Some (int fileSize - 1))
      in case createReadStream filePath (Some (rangeStart, rangeEnd)) w of
           Inl e \<Rightarrow> failed
         | Inr stream \<Rightarrow>
             (case (rangeStart, rangeEnd, contentDisposition filename) of
                (Some s, Some e, Inr disposition) \<Rightarrow>
                  \<lparr>status = 206,
                   headers = [(''Content-Range'',
                                 ''bytes '' @ showInt s @ ''-'' @ showInt e @ ''/''
                                   @ showNat fileSize),
                              (''Accept-Ranges'', ''bytes''),
                              (''Content-Length'', showInt (e - s + 1)),
                              (''Content-Type'', contentType),
                              (''Content-Disposition'', disposition),
                              (''Cache-Control'', ''no-cache'')],
                   payload = Bytes stream\<rparr>
              | _ \<Rightarrow> failed))"

definition whole :: "string \<Rightarrow> string \<Rightarrow> nat \<Rightarrow> string \<Rightarrow> world \<Rightarrow> response" where
  "whole filePath filename fileSize contentType w =
     (case (createReadStream filePath None w, contentDisposition filename) of
        (Inr stream, Inr disposition) \<Rightarrow>
          \<lparr>status = 200,
           headers = [(''Content-Type'', contentType),
                      (''Content-Length'', showNat fileSize),
                      (''Content-Disposition'', disposition),
                      (''Cache-Control'', ''no-cache'')],
           payload = Bytes stream\<rparr>
      | _ \<Rightarrow> failed)"

text \<open>
  The handler. \<open>rangeHeader\<close> is \<open>req.headers.get('range')\<close>, \<open>None\<close> for \<open>null\<close>; an
  empty header value counts as absent. Every exception ends in the \<open>catch\<close> block.
\<close>

definition GET :: "string \<Rightarrow> string \<Rightarrow> string option \<Rightarrow> world \<Rightarrow> response" where
  "GET downloadId filename rangeHeader w =
     (if downloadId = [] \<or> filename = [] then json 400 (JsonError ''Missing parameters'')
      else (case find (\<lambda>f. startsWith f downloadId) (readdirSync w) of
              None \<Rightarrow> notFound
            | Some actualFilename \<Rightarrow>
                (let filePath = join tempDir actualFilename
                 in if \<not> existsSync filePath w then notFound
                    else (case statSync filePath w of
                            Inl e \<Rightarrow> failed
                          | Inr fileSize \<Rightarrow>
                              (let contentType = contentTypeOf actualFilename
                               in case rangeHeader of
                                    None \<Rightarrow> whole filePath filename fileSize contentType w
                                  | Some r \<Rightarrow>
                                      if r = []
                                      then whole filePath filename fileSize contentType w
                                      else partial filePath filename r fileSize contentType w)))))"

text \<open>The header of a response, by name; the number of bytes of its body.\<close>

definition header :: "string \<Rightarrow> response \<Rightarrow> string option" where
  "header name r = map_of (headers r) name"

definition bodyLength :: "response \<Rightarrow> nat" where
  "bodyLength r = (case payload r of Bytes b \<Rightarrow> length b | _ \<Rightarrow> 0)"

text \<open>
  An output line that carries a completion marker, and the number of such lines in the
  output a run receives. A controller is orderly when it holds one \<open>started\<close> event and
  either is open without a terminal event or is closed with exactly one, its last.
\<close>

definition marked :: "string \<Rightarrow> bool" where
  "marked line \<longleftrightarrow>
     trim line \<noteq> []
     \<and> (includesStr line ''[download] 100%'' \<or> includesStr line ''has already been downloaded'')"

fun markedLines :: "action list \<Rightarrow> nat" where
  "markedLines [] = 0"
| "markedLines (StdoutData d # as) = length (filter marked (split newline d)) + markedLines as"
| "markedLines (a # as) = markedLines as"

definition orderly :: "controller \<Rightarrow> bool" where
  "orderly c \<longleftrightarrow>
     length (filter isStarted (queue c)) = 1 \<and> isStarted (hd (queue c))
     \<and> (if closed c
         then isTerminal (last (queue c)) \<and> length (filter isTerminal (queue c)) = 1
         else filter isTerminal (queue c) = [])"

text \<open>
  The stream of a job that was started in world \<open>w\<close> with child process \<open>pid\<close> and then
  met the actions \<open>as\<close>; and a world in which nothing has happened yet.
\<close>

definition stream :: "string \<Rightarrow> nat \<Rightarrow> world \<Rightarrow> action list \<Rightarrow> controller" where
  "stream downloadId pid w as = fst (run downloadId as (snd (start downloadId pid w)))"

definition emptyWorld :: world where
  "emptyWorld = \<lparr>clock = 0, activeDownloads = Map.empty, fileCleanupTimers = Map.empty,
                  timeouts = [], nextTimer = 0, files = [], signals = []\<rparr>"

text \<open>
  Two responses agree apart from the value of \<open>Content-Disposition\<close>: same status, same
  body, same header names in the same order, and the same value for every other header.
\<close>

definition agree :: "response \<Rightarrow> response \<Rightarrow> bool" where
  "agree r1 r2 \<longleftrightarrow>
     status r1 = status r2 \<and> payload r1 = payload r2
     \<and> map fst (headers r1) = map fst (headers r2)
     \<and> (\<forall>name. name \<noteq> ''Content-Disposition'' \<longrightarrow> header name r1 = header name r2)"


section \<open>Properties of the rate limiter\<close>

text \<open>
  C1. For every client identity: the first request of the identity, and any request that
  arrives after the expiry of its window, is admitted and starts a window of one hour
  with the counter at 1. Within a live window a request is admitted exactly while the
  counter, once incremented, is at most 5, and the increment is the only change. When the
  counter has reached 5 the request is rejected and the table is left as it was. Other
  identities are never touched.
\<close>

theorem checkRateLimit_contract:
  "(tbl c = None \<or> (\<exists>lim. tbl c = Some lim \<and> now > resetTime lim) \<longrightarrow>
      checkRateLimit now c tbl =
        (True, tbl(c \<mapsto> \<lparr>count = 1, resetTime = now + 3600000\<rparr>)))
   \<and> (\<forall>lim. tbl c = Some lim \<and> now \<le> resetTime lim \<and> count lim < 5 \<longrightarrow>
      checkRateLimit now c tbl = (True, tbl(c \<mapsto> lim\<lparr>count := count lim + 1\<rparr>))
      \<and> count lim + 1 \<le> 5)
   \<and> (\<forall>lim. tbl c = Some lim \<and> now \<le> resetTime lim \<and> count lim \<ge> 5 \<longrightarrow>
      checkRateLimit now c tbl = (False, tbl))
   \<and> (\<forall>c'. c' \<noteq> c \<longrightarrow> snd (checkRateLimit now c tbl) c' = tbl c')"
  by (auto simp: checkRateLimit_def MAX_DOWNLOADS_PER_HOUR_def split: option.splits)

theorem checkRateLimit_contract_witness:
  "checkRateLimit 10 ''a'' Map.empty
     = (True, Map.empty(''a'' \<mapsto> \<lparr>count = 1, resetTime = 3600010\<rparr>))
   \<and> checkRateLimit 20 ''a'' (Map.empty(''a'' \<mapsto> \<lparr>count = 4, resetTime = 3600010\<rparr>))
     = (True, Map.empty(''a'' \<mapsto> \<lparr>count = 5, resetTime = 3600010\<rparr>))
   \<and> checkRateLimit 30 ''a'' (Map.empty(''a'' \<mapsto> \<lparr>count = 5, resetTime = 3600010\<rparr>))
     = (False, Map.empty(''a'' \<mapsto> \<lparr>count = 5, resetTime = 3600010\<rparr>))
   \<and> checkRateLimit 3600011 ''a'' (Map.empty(''a'' \<mapsto> \<lparr>count = 5, resetTime = 3600010\<rparr>))
     = (True, Map.empty(''a'' \<mapsto> \<lparr>count = 1, resetTime = 7200011\<rparr>))
   \<and> snd (checkRateLimit 10 ''a'' (Map.empty(''b'' \<mapsto> \<lparr>count = 2, resetTime = 5\<rparr>))) ''b''
     = Some \<lparr>count = 2, resetTime = 5\<rparr>"
  using checkRateLimit_contract [of Map.empty "''a''" 10]
    checkRateLimit_contract [of "Map.empty(''a'' \<mapsto> \<lparr>count = 4, resetTime = 3600010\<rparr>)" "''a''" 20]
    checkRateLimit_contract [of "Map.empty(''a'' \<mapsto> \<lparr>count = 5, resetTime = 3600010\<rparr>)" "''a''" 30]
    checkRateLimit_contract [of "Map.empty(''a'' \<mapsto> \<lparr>count = 5, resetTime = 3600010\<rparr>)" "''a''" 3600011]
    checkRateLimit_contract [of "Map.empty(''b'' \<mapsto> \<lparr>count = 2, resetTime = 5\<rparr>)" "''a''" 10]
  by simp

section \<open>Fixed windows\<close>

lemma checkRateLimit_cases [consumes 1, case_names reset rej inc]:
  assumes "checkRateLimit t c tbl = (ok, tbl')"
  obtains
    (reset) "ok" "tbl' c = Some \<lparr>count = 1, resetTime = t + 3600000\<rparr>"
            "\<And>l. tbl c = Some l \<Longrightarrow> resetTime l < t"
  | (rej) l where "tbl c = Some l" "t \<le> resetTime l" "5 \<le> count l" "\<not> ok" "tbl' = tbl"
  | (inc) l where "tbl c = Some l" "t \<le> resetTime l" "count l < 5" "ok"
            "tbl' c = Some (l\<lparr>count := count l + 1\<rparr>)"
  using assms unfolding checkRateLimit_def MAX_DOWNLOADS_PER_HOUR_def
  by (cases "tbl c") (auto split: if_splits)

lemma checkRateLimit_some:
  assumes "checkRateLimit t c tbl = (ok, tbl')"
  shows "\<exists>l1. tbl' c = Some l1 \<and> t \<le> resetTime l1
           \<and> (\<forall>l. tbl c = Some l \<longrightarrow> resetTime l \<le> resetTime l1)"
  using assms by (cases rule: checkRateLimit_cases) auto






lemma requests_upper:
  "(t, ok, e) \<in> set (requests c ts tbl) \<Longrightarrow> t \<le> e"
proof (induction ts arbitrary: tbl)
  case Nil then show ?case by simp
next
  case (Cons a ts)
  obtain ok1 tbl' where s: "checkRateLimit a c tbl = (ok1, tbl')" by (cases "checkRateLimit a c tbl")
  from checkRateLimit_some[OF s] obtain l1 where l1: "tbl' c = Some l1" "a \<le> resetTime l1" by blast
  from Cons.prems(1) s l1 have
    "(t, ok, e) = (a, ok1, resetTime l1) \<or> (t, ok, e) \<in> set (requests c ts tbl')" by simp
  then show ?case using l1 Cons.IH[of tbl'] by auto
qed


section \<open>The progress pattern\<close>



lemma lit_Some: "lit p s = Some r \<longleftrightarrow> s = p @ r"
  by (auto simp: lit_def prefix_def)


























section \<open>The event stream of a job\<close>
lemma enqueue_open: "\<not> closed c \<Longrightarrow> enqueue e c = (None, c\<lparr>queue := queue c @ [e]\<rparr>)"
  by (simp add: enqueue_def)

lemma enqueue_closed: "closed c \<Longrightarrow> enqueue e c = (Some TypeError, c)"
  by (simp add: enqueue_def)

lemma closeController_open: "\<not> closed c \<Longrightarrow> closeController c = (None, c\<lparr>closed := True\<rparr>)"
  by (simp add: closeController_def)

lemma closeController_closed: "closed c \<Longrightarrow> closeController c = (Some TypeError, c)"
  by (simp add: closeController_def)

lemma onLine_closed: "closed c \<Longrightarrow> snd (onLine downloadId line c) = c"
  by (simp add: onLine_def enqueue_closed split: option.splits)

lemma onLine_open:
  assumes "\<not> closed c"
  shows "\<exists>es. onLine downloadId line c = (None, c\<lparr>queue := queue c @ es\<rparr>)
           \<and> (\<forall>e \<in> set es. isProgress e \<or> isProcessing e)
           \<and> length (filter isProcessing es) = (if marked line then 1 else 0)"
proof (cases "trim line = []")
  case True
  then have "onLine downloadId line c = (None, c\<lparr>queue := queue c @ []\<rparr>)" "\<not> marked line"
    by (simp_all add: onLine_def marked_def)
  then show ?thesis by (intro exI[of _ "[]"]) simp
next
  case False
  define ps where "ps = (case parseProgress line of Some p \<Rightarrow> [Progress downloadId p] | None \<Rightarrow> [])"
  define ms where "ms = (if marked line then [Processing downloadId ''Processing file...''] else [])"
  have "onLine downloadId line c = (None, c\<lparr>queue := queue c @ (ps @ ms)\<rparr>)"
    using assms False
    by (simp add: onLine_def enqueue_def ps_def ms_def marked_def split: option.splits)
  moreover have "\<forall>e \<in> set (ps @ ms). isProgress e \<or> isProcessing e"
    by (auto simp: ps_def ms_def split: option.splits)
  moreover have "length (filter isProcessing (ps @ ms)) = (if marked line then 1 else 0)"
    by (auto simp: ps_def ms_def split: option.splits)
  ultimately show ?thesis by blast
qed

lemma onLines_closed: "closed c \<Longrightarrow> snd (onLines downloadId ls c) = c"
proof (induction ls)
  case Nil then show ?case by simp
next
  case (Cons l ls)
  obtain x c1 where o: "onLine downloadId l c = (x, c1)" by (cases "onLine downloadId l c")
  with onLine_closed[OF Cons.prems, of downloadId l] have "c1 = c" by simp
  with o Cons show ?case by (cases x) simp_all
qed

lemma onLines_open:
  "\<not> closed c \<Longrightarrow>
     \<exists>es. onLines downloadId ls c = (None, c\<lparr>queue := queue c @ es\<rparr>)
        \<and> (\<forall>e \<in> set es. isProgress e \<or> isProcessing e)
        \<and> length (filter isProcessing es) = length (filter marked ls)"
proof (induction ls arbitrary: c)
  case Nil
  then show ?case by (intro exI[of _ "[]"]) simp
next
  case (Cons l ls)
  from onLine_open[OF Cons.prems, of downloadId l] obtain es1 where
    1: "onLine downloadId l c = (None, c\<lparr>queue := queue c @ es1\<rparr>)"
       "\<forall>e \<in> set es1. isProgress e \<or> isProcessing e"
       "length (filter isProcessing es1) = (if marked l then 1 else 0)" by blast
  have "\<not> closed (c\<lparr>queue := queue c @ es1\<rparr>)" using Cons.prems by simp
  from Cons.IH[OF this] obtain es2 where
    2: "onLines downloadId ls (c\<lparr>queue := queue c @ es1\<rparr>)
          = (None, c\<lparr>queue := queue c @ es1 @ es2\<rparr>)"
       "\<forall>e \<in> set es2. isProgress e \<or> isProcessing e"
       "length (filter isProcessing es2) = length (filter marked ls)" by auto
  have "onLines downloadId (l # ls) c = (None, c\<lparr>queue := queue c @ (es1 @ es2)\<rparr>)"
    using 1(1) 2(1) by simp
  moreover have "\<forall>e \<in> set (es1 @ es2). isProgress e \<or> isProcessing e" using 1(2) 2(2) by auto
  moreover have "length (filter isProcessing (es1 @ es2)) = length (filter marked (l # ls))"
    using 1(3) 2(3) by simp
  ultimately show ?case by blast
qed

lemma onStdout_closed: "closed c \<Longrightarrow> snd (onStdout downloadId d (c, w)) = (c, w)"
  using onLines_closed[of c downloadId "split newline d"]
  by (cases "onLines downloadId (split newline d) c") (simp add: onStdout_def)

lemma onStdout_open:
  assumes "\<not> closed c"
  shows "\<exists>es. snd (onStdout downloadId d (c, w)) = (c\<lparr>queue := queue c @ es\<rparr>, w)
           \<and> (\<forall>e \<in> set es. isProgress e \<or> isProcessing e)
           \<and> length (filter isProcessing es) = length (filter marked (split newline d))"
proof -
  from onLines_open[OF assms, of downloadId "split newline d"] obtain es where
    "onLines downloadId (split newline d) c = (None, c\<lparr>queue := queue c @ es\<rparr>)"
    "\<forall>e \<in> set es. isProgress e \<or> isProcessing e"
    "length (filter isProcessing es) = length (filter marked (split newline d))" by blast
  then show ?thesis by (intro exI[of _ es]) (simp add: onStdout_def)
qed

lemma onStderr_closed: "closed c \<Longrightarrow> snd (onStderr downloadId d (c, w)) = (c, w)"
  by (simp add: onStderr_def enqueue_closed)

lemma onStderr_open:
  "\<not> closed c \<Longrightarrow>
     snd (onStderr downloadId d (c, w)) =
       (if includesStr d ''ERROR''
        then (c\<lparr>queue := queue c @ [Error downloadId (''Download failed: '' @ d)],
                closed := True\<rparr>,
              w\<lparr>activeDownloads := (activeDownloads w)(downloadId := None)\<rparr>)
        else (c, w))"
  by (simp add: onStderr_def enqueue_def closeController_def)

lemma onError_closed:
  "closed c \<Longrightarrow> snd (onError downloadId m (c, w))
     = (c, w\<lparr>activeDownloads := (activeDownloads w)(downloadId := None)\<rparr>)"
  by (simp add: onError_def enqueue_closed)

lemma onError_open:
  "\<not> closed c \<Longrightarrow>
     snd (onError downloadId m (c, w)) =
       (c\<lparr>queue := queue c @ [Error downloadId (''Failed to start download: '' @ m)],
          closed := True\<rparr>,
        w\<lparr>activeDownloads := (activeDownloads w)(downloadId := None)\<rparr>)"
  by (simp add: onError_def enqueue_def closeController_def)

lemma locateFile_closed: "closed c \<Longrightarrow> \<exists>x w1. locateFile downloadId (c, w) = (Some x, c, w1)"
  by (auto simp: locateFile_def enqueue_closed Let_def split: option.splits sum.splits)

lemma locateFile_missing:
  "find (\<lambda>f. startsWith f downloadId) (readdirSync w) = None \<Longrightarrow> \<not> closed c \<Longrightarrow>
     locateFile downloadId (c, w)
       = (None, c\<lparr>queue := queue c @ [Error downloadId ''Downloaded file not found'']\<rparr>, w)"
  by (simp add: locateFile_def enqueue_def)

lemma locateFile_stat:
  "find (\<lambda>f. startsWith f downloadId) (readdirSync w) = Some f \<Longrightarrow>
   statSync (join tempDir f) w = Inl x \<Longrightarrow>
     locateFile downloadId (c, w) = (Some x, c, w)"
  by (simp add: locateFile_def)

lemma locateFile_found:
  "find (\<lambda>f. startsWith f downloadId) (readdirSync w) = Some f \<Longrightarrow>
   statSync (join tempDir f) w = Inr sz \<Longrightarrow> \<not> closed c \<Longrightarrow>
     locateFile downloadId (c, w)
       = (None,
          c\<lparr>queue := queue c @
              [Complete downloadId (replaceStr (downloadId @ ''.'') [] f)
                 (fileSizeInMB sz @ '' MB'')
                 (''/api/download-file/'' @ downloadId @ ''/''
                    @ encodeURIComponent (replaceStr (downloadId @ ''.'') [] f))]\<rparr>,
          scheduleFileCleanup (join tempDir f) downloadId w)"
  by (simp add: locateFile_def enqueue_def Let_def)

lemma locateFile_open:
  assumes "\<not> closed c"
  shows "(\<exists>e w1. isTerminal e \<and> locateFile downloadId (c, w) = (None, c\<lparr>queue := queue c @ [e]\<rparr>, w1))
     \<or> (\<exists>x. locateFile downloadId (c, w) = (Some x, c, w))"
proof (cases "find (\<lambda>f. startsWith f downloadId) (readdirSync w)")
  case None
  from locateFile_missing[OF None assms] show ?thesis
    by (intro disjI1 exI[of _ "Error downloadId ''Downloaded file not found''"] exI[of _ w]) simp
next
  case (Some f)
  show ?thesis
  proof (cases "statSync (join tempDir f) w")
    case (Inl x)
    from locateFile_stat[OF Some Inl] show ?thesis by blast
  next
    case (Inr sz)
    from locateFile_found[OF Some Inr assms] show ?thesis
      by (intro disjI1 exI[of _ "Complete downloadId (replaceStr (downloadId @ ''.'') [] f)
                 (fileSizeInMB sz @ '' MB'')
                 (''/api/download-file/'' @ downloadId @ ''/''
                    @ encodeURIComponent (replaceStr (downloadId @ ''.'') [] f))"]
             exI[of _ "scheduleFileCleanup (join tempDir f) downloadId w"]) simp
  qed
qed

lemma onClose_closed: "closed c \<Longrightarrow> fst (snd (onClose downloadId code (c, w))) = c"
proof -
  assume c: "closed c"
  let ?w = "w\<lparr>activeDownloads := (activeDownloads w)(downloadId := None)\<rparr>"
  from locateFile_closed[OF c, of downloadId ?w] obtain x w1 where
    "locateFile downloadId (c, ?w) = (Some x, c, w1)" by blast
  with c show ?thesis by (simp add: onClose_def enqueue_closed Let_def)
qed

lemma onClose_open:
  assumes "\<not> closed c"
  shows "\<exists>e. isTerminal e
           \<and> fst (snd (onClose downloadId code (c, w))) = c\<lparr>queue := queue c @ [e], closed := True\<rparr>"
proof (cases "code = Some 0")
  case False
  with assms show ?thesis
    by (intro exI[of _ "Error downloadId (''Download failed with code '' @ showCode code)"])
       (simp add: onClose_def enqueue_def closeController_def Let_def)
next
  case True
  let ?w = "w\<lparr>activeDownloads := (activeDownloads w)(downloadId := None)\<rparr>"
  from locateFile_open[OF assms, of downloadId ?w] show ?thesis
  proof (elim disjE exE conjE)
    fix e w1 assume "isTerminal e"
      "locateFile downloadId (c, ?w) = (None, c\<lparr>queue := queue c @ [e]\<rparr>, w1)"
    with True assms show ?thesis
      by (intro exI[of _ e]) (simp add: onClose_def closeController_def Let_def)
  next
    fix x assume "locateFile downloadId (c, ?w) = (Some x, c, ?w)"
    with True assms show ?thesis
      by (intro exI[of _ "Error downloadId ''Error processing downloaded file''"])
         (simp add: onClose_def enqueue_def closeController_def Let_def)
  qed
qed

lemma step_closed: "closed c \<Longrightarrow> fst (step downloadId a (c, w)) = c"
  by (cases a) (simp_all add: onStdout_closed onStderr_closed onError_closed onClose_closed)

lemma step_open:
  assumes "\<not> closed c"
  shows "(\<exists>es. fst (step downloadId a (c, w)) = c\<lparr>queue := queue c @ es\<rparr>
            \<and> (\<forall>e \<in> set es. isProgress e \<or> isProcessing e)
            \<and> length (filter isProcessing es) = markedLines [a])
         \<or> (\<exists>e. isTerminal e
            \<and> fst (step downloadId a (c, w)) = c\<lparr>queue := queue c @ [e], closed := True\<rparr>
            \<and> markedLines [a] = 0)"
proof (cases a)
  case (StdoutData d)
  from onStdout_open[OF assms, of downloadId d w] StdoutData show ?thesis by auto
next
  case (StderrData d)
  show ?thesis
  proof (cases "includesStr d ''ERROR''")
    case True
    with StderrData assms have "isTerminal (Error downloadId (''Download failed: '' @ d))
       \<and> fst (step downloadId a (c, w))
          = c\<lparr>queue := queue c @ [Error downloadId (''Download failed: '' @ d)], closed := True\<rparr>
       \<and> markedLines [a] = 0" by (simp add: onStderr_open)
    then show ?thesis by blast
  next
    case False
    with StderrData assms have "fst (step downloadId a (c, w)) = c\<lparr>queue := queue c @ []\<rparr>
       \<and> (\<forall>e \<in> set []. isProgress e \<or> isProcessing e)
       \<and> length (filter isProcessing []) = markedLines [a]" by (simp add: onStderr_open)
    then show ?thesis by blast
  qed
next
  case (Close code)
  from onClose_open[OF assms, of downloadId code w] Close show ?thesis by auto
next
  case (ProcError m)
  with assms have "isTerminal (Error downloadId (''Failed to start download: '' @ m))
       \<and> fst (step downloadId a (c, w))
          = c\<lparr>queue := queue c @ [Error downloadId (''Failed to start download: '' @ m)],
              closed := True\<rparr>
       \<and> markedLines [a] = 0" by (simp add: onError_open)
  then show ?thesis by blast
next
  case (Elapse t)
  then have "fst (step downloadId a (c, w)) = c\<lparr>queue := queue c @ []\<rparr>
       \<and> (\<forall>e \<in> set []. isProgress e \<or> isProcessing e)
       \<and> length (filter isProcessing []) = markedLines [a]" by simp
  then show ?thesis by blast
qed
lemma interim_event: "isProgress e \<or> isProcessing e \<Longrightarrow> \<not> isStarted e \<and> \<not> isTerminal e"
  by (cases e) simp_all

lemma orderly_step:
  assumes "orderly c"
  shows "orderly (fst (step downloadId a (c, w)))"
proof (cases "closed c")
  case True
  with assms show ?thesis by (simp add: step_closed)
next
  case False
  from assms have ne: "queue c \<noteq> []" by (auto simp: orderly_def)
  from step_open[OF False, of downloadId a w] show ?thesis
  proof (elim disjE exE conjE)
    fix es assume s: "fst (step downloadId a (c, w)) = c\<lparr>queue := queue c @ es\<rparr>"
      and e: "\<forall>e \<in> set es. isProgress e \<or> isProcessing e"
    have "filter isStarted es = []" "filter isTerminal es = []"
      using e interim_event by (auto simp: filter_empty_conv)
    with assms False ne show ?thesis unfolding s by (simp add: orderly_def)
  next
    fix e assume t: "isTerminal e"
      and s: "fst (step downloadId a (c, w)) = c\<lparr>queue := queue c @ [e], closed := True\<rparr>"
    from t have "\<not> isStarted e" by (cases e) simp_all
    with assms False ne t show ?thesis unfolding s by (simp add: orderly_def)
  qed
qed

lemma orderly_run: "orderly c \<Longrightarrow> orderly (fst (run downloadId as (c, w)))"
proof (induction as arbitrary: c w)
  case Nil then show ?case by simp
next
  case (Cons a as)
  obtain c1 w1 where s: "step downloadId a (c, w) = (c1, w1)" by (cases "step downloadId a (c, w)")
  with orderly_step[OF Cons.prems, of downloadId a w] have "orderly c1" by simp
  from Cons.IH[OF this, of w1] s show ?case by simp
qed

lemma run_closed: "closed c \<Longrightarrow> fst (run downloadId as (c, w)) = c"
proof (induction as arbitrary: w)
  case Nil then show ?case by simp
next
  case (Cons a as)
  obtain c1 w1 where s: "step downloadId a (c, w) = (c1, w1)" by (cases "step downloadId a (c, w)")
  with step_closed[OF Cons.prems, of downloadId a w] have "c1 = c" by simp
  with Cons s show ?case by simp
qed

lemma step_ends:
  assumes "a = Close code \<or> a = ProcError m"
  shows "closed (fst (step downloadId a (c, w)))"
proof (cases "closed c")
  case True then show ?thesis by (simp add: step_closed)
next
  case False
  from assms show ?thesis
  proof
    assume a: "a = Close code"
    from onClose_open[OF False, of downloadId code w] a show ?thesis by auto
  next
    assume "a = ProcError m"
    with False show ?thesis by (simp add: onError_open)
  qed
qed

lemma run_ends:
  "(\<exists>code. Close code \<in> set as) \<or> (\<exists>m. ProcError m \<in> set as) \<Longrightarrow>
     closed (fst (run downloadId as (c, w)))"
proof (induction as arbitrary: c w)
  case Nil then show ?case by simp
next
  case (Cons a as)
  obtain c1 w1 where s: "step downloadId a (c, w) = (c1, w1)" by (cases "step downloadId a (c, w)")
  show ?case
  proof (cases "(\<exists>code. a = Close code) \<or> (\<exists>m. a = ProcError m)")
    case True
    then obtain code m where "a = Close code \<or> a = ProcError m" by blast
    from step_ends[OF this, of downloadId c w] s have "closed c1" by simp
    from run_closed[OF this, of downloadId as w1] \<open>closed c1\<close> s show ?thesis by simp
  next
    case False
    with Cons.prems have "(\<exists>code. Close code \<in> set as) \<or> (\<exists>m. ProcError m \<in> set as)" by auto
    from Cons.IH[OF this, of c1 w1] s show ?thesis by simp
  qed
qed

lemma markedLines_Cons: "markedLines (a # as) = markedLines [a] + markedLines as"
  by (cases a) simp_all

lemma run_processing:
  "length (filter isProcessing (queue (fst (run downloadId as (c, w)))))
     \<le> length (filter isProcessing (queue c)) + markedLines as
   \<and> (\<not> closed (fst (run downloadId as (c, w))) \<longrightarrow>
        length (filter isProcessing (queue (fst (run downloadId as (c, w)))))
          = length (filter isProcessing (queue c)) + markedLines as)"
proof (induction as arbitrary: c w)
  case Nil then show ?case by simp
next
  case (Cons a as)
  obtain c1 w1 where s: "step downloadId a (c, w) = (c1, w1)" by (cases "step downloadId a (c, w)")
  then have r: "run downloadId (a # as) (c, w) = run downloadId as (c1, w1)" by simp
  show ?case
  proof (cases "closed c")
    case True
    from run_closed[OF True, of downloadId "a # as" w] True show ?thesis by simp
  next
    case False
    from step_open[OF False, of downloadId a w] show ?thesis
    proof (elim disjE exE conjE)
      fix es assume "fst (step downloadId a (c, w)) = c\<lparr>queue := queue c @ es\<rparr>"
        and n: "length (filter isProcessing es) = markedLines [a]"
      with s have c1: "c1 = c\<lparr>queue := queue c @ es\<rparr>" by simp
      have "length (filter isProcessing (queue c1))
          = length (filter isProcessing (queue c)) + markedLines [a]"
        unfolding c1 using n by simp
      with Cons.IH[of c1 w1] show ?thesis
        unfolding r markedLines_Cons[of a as] by simp
    next
      fix e assume t: "isTerminal e"
        and "fst (step downloadId a (c, w)) = c\<lparr>queue := queue c @ [e], closed := True\<rparr>"
        and z: "markedLines [a] = 0"
      with s have c1: "c1 = c\<lparr>queue := queue c @ [e], closed := True\<rparr>" by simp
      then have cl: "closed c1" by simp
      from t have "\<not> isProcessing e" by (cases e) simp_all
      with c1 have "length (filter isProcessing (queue c1)) = length (filter isProcessing (queue c))"
        by simp
      with run_closed[OF cl, of downloadId as w1] cl show ?thesis
        unfolding r markedLines_Cons[of a as] by simp
    qed
  qed
qed

lemma start_result:
  "snd (start downloadId pid w)
     = (\<lparr>queue = [Started downloadId ''Starting download...''], closed = False\<rparr>,
        w\<lparr>activeDownloads := (activeDownloads w)(downloadId \<mapsto>
              \<lparr>process = pid, startTime = clock w\<rparr>)\<rparr>)"
  by (simp add: start_def enqueue_def)

text \<open>
  C3, as amended. For every job and everything that can happen to it after its start:
  the \<open>started\<close> event is published exactly once and first; at most one terminal event
  (\<open>complete\<close> or \<open>error\<close>) is published, the stream is closed exactly when one has
  been, and it is then the last event; once the process has closed or failed to spawn,
  exactly one terminal event has been published. The \<open>processing\<close> event is published
  once for every output line that carries a completion marker while the stream is open,
  so never more often than such lines were received.
\<close>

theorem stream_events:
  "length (filter isStarted (queue (stream downloadId pid w as))) = 1
   \<and> isStarted (hd (queue (stream downloadId pid w as)))
   \<and> length (filter isTerminal (queue (stream downloadId pid w as))) \<le> 1
   \<and> (closed (stream downloadId pid w as)
        \<longleftrightarrow> length (filter isTerminal (queue (stream downloadId pid w as))) = 1)
   \<and> (closed (stream downloadId pid w as) \<longrightarrow> isTerminal (last (queue (stream downloadId pid w as))))
   \<and> ((\<exists>code. Close code \<in> set as) \<or> (\<exists>m. ProcError m \<in> set as)
        \<longrightarrow> closed (stream downloadId pid w as))
   \<and> length (filter isProcessing (queue (stream downloadId pid w as))) \<le> markedLines as
   \<and> (\<not> closed (stream downloadId pid w as)
        \<longrightarrow> length (filter isProcessing (queue (stream downloadId pid w as))) = markedLines as)"
proof -
  obtain c0 w0 where s: "snd (start downloadId pid w) = (c0, w0)"
    and c0: "c0 = \<lparr>queue = [Started downloadId ''Starting download...''], closed = False\<rparr>"
    by (simp add: start_result)
  have o0: "orderly c0" by (simp add: c0 orderly_def)
  have st: "stream downloadId pid w as = fst (run downloadId as (c0, w0))"
    by (simp add: stream_def s)
  from orderly_run[OF o0, of downloadId as w0]
  have o: "orderly (stream downloadId pid w as)" by (simp add: st)
  have p0: "length (filter isProcessing (queue c0)) = 0" by (simp add: c0)
  from run_processing[of downloadId as c0 w0] p0
  have p: "length (filter isProcessing (queue (stream downloadId pid w as))) \<le> markedLines as"
    "\<not> closed (stream downloadId pid w as)
        \<longrightarrow> length (filter isProcessing (queue (stream downloadId pid w as))) = markedLines as"
    by (simp_all add: st)
  have e: "(\<exists>code. Close code \<in> set as) \<or> (\<exists>m. ProcError m \<in> set as)
        \<longrightarrow> closed (stream downloadId pid w as)"
    using run_ends[of as downloadId c0 w0] by (simp add: st)
  from o have "length (filter isStarted (queue (stream downloadId pid w as))) = 1"
    "isStarted (hd (queue (stream downloadId pid w as)))"
    "length (filter isTerminal (queue (stream downloadId pid w as))) \<le> 1"
    "closed (stream downloadId pid w as)
        \<longleftrightarrow> length (filter isTerminal (queue (stream downloadId pid w as))) = 1"
    "closed (stream downloadId pid w as) \<longrightarrow> isTerminal (last (queue (stream downloadId pid w as)))"
    by (auto simp: orderly_def split: if_splits)
  with p e show ?thesis by blast
qed


theorem stream_events_witness:
  "closed (stream ''job'' 7 emptyWorld [StdoutData ''[download] 100%'', Close (Some 1)])
   \<and> length (filter isTerminal
         (queue (stream ''job'' 7 emptyWorld [StdoutData ''[download] 100%'', Close (Some 1)]))) = 1
   \<and> isTerminal (last
         (queue (stream ''job'' 7 emptyWorld [StdoutData ''[download] 100%'', Close (Some 1)])))
   \<and> length (filter isStarted
         (queue (stream ''job'' 7 emptyWorld [StdoutData ''[download] 100%'', Close (Some 1)]))) = 1
   \<and> length (filter isProcessing (queue (stream ''job'' 7 emptyWorld [StdoutData ''[download] 100%'']))) = 1"
proof -
  have o: "\<not> closed (stream ''job'' 7 emptyWorld [StdoutData ''[download] 100%''])"
    by code_simp
  have m: "markedLines [StdoutData ''[download] 100%''] = 1" by code_simp
  have ex: "(\<exists>code. Close code \<in> set [StdoutData ''[download] 100%'', Close (Some 1)])
      \<or> (\<exists>m. ProcError m \<in> set [StdoutData ''[download] 100%'', Close (Some 1)])"
    by (intro disjI1 exI[of _ "Some 1"]) simp
  note t1 = stream_events[of "''job''" 7 emptyWorld "[StdoutData ''[download] 100%'', Close (Some 1)]"]
  note t2 = stream_events[of "''job''" 7 emptyWorld "[StdoutData ''[download] 100%'']"]
  from t1 ex have cl: "closed (stream ''job'' 7 emptyWorld [StdoutData ''[download] 100%'', Close (Some 1)])"
    by blast
  from t2 o have "length (filter isProcessing
      (queue (stream ''job'' 7 emptyWorld [StdoutData ''[download] 100%''])))
      = markedLines [StdoutData ''[download] 100%'']" by blast
  then have p: "length (filter isProcessing
      (queue (stream ''job'' 7 emptyWorld [StdoutData ''[download] 100%'']))) = 1"
    by (simp only: m)
  from t1 cl p show ?thesis by blast
qed

text \<open>
  C3, as stated, fails for the \<open>processing\<close> event. A job whose process exits with
  code 1 before any output publishes \<open>started\<close> and \<open>error\<close> and no \<open>processing\<close>
  event; a job whose output has two lines with the marker \<open>[download] 100%\<close> publishes
  two.
\<close>

theorem processing_once_counterexample:
  "queue (stream ''job'' 7 emptyWorld [Close (Some 1)])
     = [Started ''job'' ''Starting download...'', Error ''job'' ''Download failed with code 1'']
   \<and> queue (stream ''job'' 7
        (emptyWorld\<lparr>files := [(''job.mp4'', \<lparr>content = ''abc'', locked = False\<rparr>)]\<rparr>)
        [StdoutData (''[download] 100% of 3.42MiB at 1.00MiB/s ETA 00:00'' @ [newline]
                       @ ''[download] 100% of 3.42MiB in 00:03''),
         Close (Some 0)])
     = [Started ''job'' ''Starting download...'',
        Progress ''job'' \<lparr>percentage = ParseFloat ''100'', speed = ''1.00MiB/s'', eta = ''00:00'',
                          size' = ''3.42MiB''\<rparr>,
        Processing ''job'' ''Processing file...'',
        Processing ''job'' ''Processing file...'',
        Complete ''job'' ''mp4'' ''0.00 MB'' ''/api/download-file/job/mp4'']"
  by code_simp

section \<open>The close listener\<close>

lemma find_filter_Cons: "filter P xs = f # fs \<Longrightarrow> find P xs = Some f"
  by (induction xs) (auto split: if_splits)

lemma find_filter_Nil: "filter P xs = [] \<Longrightarrow> find P xs = None"
  by (induction xs) (auto split: if_splits)

lemma entryOf_join: "entryOf (join tempDir f) = Some f"
  by (simp add: entryOf_def join_def lit_Some)

lemma statSync_entry:
  "map_of (files w) f = Some e \<Longrightarrow> statSync (join tempDir f) w = Inr (length (content e))"
  by (simp add: statSync_def entryOf_join)

lemma listed_entry: "f \<in> set (readdirSync w) \<Longrightarrow> \<exists>e. map_of (files w) f = Some e"
  by (cases "map_of (files w) f") (auto simp: readdirSync_def map_of_eq_None_iff)

lemma replaceStr_prefix: "p \<noteq> [] \<Longrightarrow> replaceStr p r (p @ rest) = r @ rest"
proof -
  assume "p \<noteq> []"
  then obtain a l where al: "p @ rest = a # l" by (cases "p @ rest") auto
  have "prefix p (a # l)" "drop (length p) (a # l) = rest"
    unfolding al[symmetric] by simp_all
  then have "replaceStr p r (a # l) = r @ rest" by simp
  then show ?thesis by (simp only: al)
qed

lemma scheduleFileCleanup_world:
  "scheduleFileCleanup filePath downloadId w
     = w\<lparr>timeouts := timeouts w @ [(nextTimer w, \<lparr>due = clock w + 180000, cleanupPath = filePath,
                                                   cleanupId = downloadId\<rparr>)],
          nextTimer := Suc (nextTimer w),
          fileCleanupTimers := (fileCleanupTimers w)(downloadId \<mapsto> nextTimer w)\<rparr>"
  by (simp add: scheduleFileCleanup_def setTimeout_def)

lemma onClose_found:
  assumes "\<not> closed c" and "find (\<lambda>n. startsWith n downloadId) (readdirSync w) = Some f"
    and "map_of (files w) f = Some e"
  shows "snd (onClose downloadId (Some 0) (c, w))
     = (c\<lparr>queue := queue c @
            [Complete downloadId (replaceStr (downloadId @ ''.'') [] f)
               (fileSizeInMB (length (content e)) @ '' MB'')
               (''/api/download-file/'' @ downloadId @ ''/''
                  @ encodeURIComponent (replaceStr (downloadId @ ''.'') [] f))],
          closed := True\<rparr>,
        scheduleFileCleanup (join tempDir f) downloadId
          (w\<lparr>activeDownloads := (activeDownloads w)(downloadId := None)\<rparr>))"
proof -
  let ?w = "w\<lparr>activeDownloads := (activeDownloads w)(downloadId := None)\<rparr>"
  have f: "find (\<lambda>n. startsWith n downloadId) (readdirSync ?w) = Some f"
    using assms(2) by (simp add: readdirSync_def)
  have s: "statSync (join tempDir f) ?w = Inr (length (content e))"
    using assms(3) by (simp add: statSync_entry)
  from locateFile_found[OF f s assms(1)] assms(1) show ?thesis
    by (simp add: onClose_def closeController_def Let_def)
qed

lemma onClose_missing:
  assumes "\<not> closed c" and "find (\<lambda>n. startsWith n downloadId) (readdirSync w) = None"
  shows "snd (onClose downloadId (Some 0) (c, w))
     = (c\<lparr>queue := queue c @ [Error downloadId ''Downloaded file not found''], closed := True\<rparr>,
        w\<lparr>activeDownloads := (activeDownloads w)(downloadId := None)\<rparr>)"
proof -
  let ?w = "w\<lparr>activeDownloads := (activeDownloads w)(downloadId := None)\<rparr>"
  have f: "find (\<lambda>n. startsWith n downloadId) (readdirSync ?w) = None"
    using assms(2) by (simp add: readdirSync_def)
  from locateFile_missing[OF f assms(1)] assms(1) show ?thesis
    by (simp add: onClose_def closeController_def Let_def)
qed


section \<open>Timers\<close>

lemma cleanupCallback_frame:
  "activeDownloads (cleanupCallback p k w) = activeDownloads w
   \<and> timeouts (cleanupCallback p k w) = timeouts w
   \<and> signals (cleanupCallback p k w) = signals w
   \<and> (fileCleanupTimers (cleanupCallback p k w) = fileCleanupTimers w
        \<or> fileCleanupTimers (cleanupCallback p k w) = (fileCleanupTimers w)(k := None))
   \<and> set (files (cleanupCallback p k w)) \<subseteq> set (files w)"
  by (auto simp: cleanupCallback_def unlinkSync_def split: option.splits sum.splits if_splits)

lemma fireTimer_frame:
  "activeDownloads (fireTimer h w) = activeDownloads w
   \<and> signals (fireTimer h w) = signals w
   \<and> set (timeouts (fireTimer h w)) \<subseteq> set (timeouts w)
   \<and> (\<forall>k. fileCleanupTimers w k = None \<longrightarrow> fileCleanupTimers (fireTimer h w) k = None)
   \<and> set (files (fireTimer h w)) \<subseteq> set (files w)"
proof (cases "map_of (timeouts w) h")
  case None
  then show ?thesis by (simp add: fireTimer_def)
next
  case (Some tm)
  let ?v = "clearTimeout h w"
  have v: "activeDownloads ?v = activeDownloads w" "signals ?v = signals w"
    "set (timeouts ?v) \<subseteq> set (timeouts w)" "fileCleanupTimers ?v = fileCleanupTimers w"
    "files ?v = files w"
    by (auto simp: clearTimeout_def)
  have f: "fireTimer h w = cleanupCallback (cleanupPath tm) (cleanupId tm) ?v"
    using Some by (simp add: fireTimer_def)
  from cleanupCallback_frame[of "cleanupPath tm" "cleanupId tm" ?v] v show ?thesis
    unfolding f by auto
qed

lemma fireTimers_frame:
  "activeDownloads (foldl (\<lambda>v h. fireTimer h v) w hs) = activeDownloads w
   \<and> signals (foldl (\<lambda>v h. fireTimer h v) w hs) = signals w
   \<and> set (timeouts (foldl (\<lambda>v h. fireTimer h v) w hs)) \<subseteq> set (timeouts w)
   \<and> (\<forall>k. fileCleanupTimers w k = None
          \<longrightarrow> fileCleanupTimers (foldl (\<lambda>v h. fireTimer h v) w hs) k = None)
   \<and> set (files (foldl (\<lambda>v h. fireTimer h v) w hs)) \<subseteq> set (files w)"
proof (induction hs arbitrary: w)
  case Nil then show ?case by simp
next
  case (Cons h hs)
  from Cons.IH[of "fireTimer h w"] fireTimer_frame[of h w] show ?case
    by (simp del: foldl_Cons add: foldl_Cons[of _ w h hs]) blast
qed

lemma elapse_frame:
  "activeDownloads (elapse t w) = activeDownloads w
   \<and> signals (elapse t w) = signals w
   \<and> set (timeouts (elapse t w)) \<subseteq> set (timeouts w)
   \<and> (\<forall>k. fileCleanupTimers w k = None \<longrightarrow> fileCleanupTimers (elapse t w) k = None)
   \<and> set (files (elapse t w)) \<subseteq> set (files w)"
  using fireTimers_frame[of "w\<lparr>clock := max t (clock w)\<rparr>" "dueBy t w"]
  by (simp add: elapse_def)

section \<open>Cancellation\<close>








section \<open>Firing of a cleanup timer\<close>

lemma existsSync_listed: "existsSync (join tempDir f) w \<longleftrightarrow> f \<in> set (readdirSync w)"
  by (simp add: existsSync_def entryOf_join)


lemma existsSync_map_of:
  "existsSync p w \<longleftrightarrow> (\<exists>n e. entryOf p = Some n \<and> map_of (files w) n = Some e)"
proof (cases "entryOf p")
  case None then show ?thesis by (simp add: existsSync_def)
next
  case (Some n)
  have "n \<in> set (readdirSync w) \<longleftrightarrow> (\<exists>e. map_of (files w) n = Some e)"
    using map_of_eq_None_iff[of "files w" n] by (auto simp: readdirSync_def)
  with Some show ?thesis by (simp add: existsSync_def)
qed

lemma unlinkSync_unlocked:
  "entryOf p = Some n \<Longrightarrow> map_of (files w) n = Some e \<Longrightarrow> \<not> locked e \<Longrightarrow>
     unlinkSync p w = Inr (w\<lparr>files := filter (\<lambda>(m, _). m \<noteq> n) (files w)\<rparr>)"
  by (simp add: unlinkSync_def)

lemma removed_not_listed: "n \<notin> set (map fst (filter (\<lambda>(m, _). m \<noteq> n) fs))"
  by (induction fs) auto


lemma cleanupCallback_unlocked:
  assumes "entryOf p = Some n" "map_of (files w) n = Some e" "\<not> locked e"
  shows "cleanupCallback p k w
     = w\<lparr>files := filter (\<lambda>(m, _). m \<noteq> n) (files w),
         fileCleanupTimers := (fileCleanupTimers w)(k := None)\<rparr>"
proof -
  from assms(1,2) have "existsSync p w" by (auto simp: existsSync_map_of)
  with unlinkSync_unlocked[OF assms] show ?thesis by (simp add: cleanupCallback_def)
qed


lemma map_of_filter_key: "h' \<noteq> h \<Longrightarrow> map_of (filter (\<lambda>(k, _). k \<noteq> h') ts) h = map_of ts h"
  by (induction ts) auto

lemma fireTimer_other:
  assumes "h' \<noteq> h"
  shows "map_of (timeouts (fireTimer h' v)) h = map_of (timeouts v) h"
proof (cases "map_of (timeouts v) h'")
  case None then show ?thesis by (simp add: fireTimer_def)
next
  case (Some tm)
  have "timeouts (fireTimer h' v) = timeouts (clearTimeout h' v)"
    using Some cleanupCallback_frame[of "cleanupPath tm" "cleanupId tm" "clearTimeout h' v"]
    by (simp add: fireTimer_def)
  then show ?thesis using assms by (simp add: clearTimeout_def map_of_filter_key)
qed

lemma cleanupCallback_files:
  "files (cleanupCallback p k v) = files v
   \<or> (\<exists>n. files (cleanupCallback p k v) = filter (\<lambda>(m, _). m \<noteq> n) (files v))"
  by (auto simp: cleanupCallback_def unlinkSync_def split: option.splits sum.splits if_splits)

lemma fireTimer_files:
  "files (fireTimer h v) = files v
   \<or> (\<exists>n. files (fireTimer h v) = filter (\<lambda>(m, _). m \<noteq> n) (files v))"
proof (cases "map_of (timeouts v) h")
  case None then show ?thesis by (simp add: fireTimer_def)
next
  case (Some tm)
  from cleanupCallback_files[of "cleanupPath tm" "cleanupId tm" "clearTimeout h v"] Some
  show ?thesis by (simp add: fireTimer_def clearTimeout_def)
qed

lemma fireTimer_keeps:
  assumes "map_of (files v) f = Some e"
  shows "f \<notin> set (readdirSync (fireTimer h v)) \<or> map_of (files (fireTimer h v)) f = Some e"
proof -
  from fireTimer_files[of h v] show ?thesis
  proof (elim disjE exE)
    assume "files (fireTimer h v) = files v" with assms show ?thesis by simp
  next
    fix n assume n: "files (fireTimer h v) = filter (\<lambda>(m, _). m \<noteq> n) (files v)"
    show ?thesis
    proof (cases "n = f")
      case True
      with n removed_not_listed[of f "files v"] show ?thesis by (simp add: readdirSync_def)
    next
      case False
      with n assms show ?thesis by (simp add: map_of_filter_key)
    qed
  qed
qed

lemma fireTimer_gone:
  "f \<notin> set (readdirSync v) \<Longrightarrow> f \<notin> set (readdirSync (fireTimer h v))"
  using fireTimer_frame[of h v] by (auto simp: readdirSync_def)

lemma fireTimer_own:
  assumes "map_of (timeouts v) h = Some tm" and "cleanupPath tm = join tempDir f"
    and "map_of (files v) f = Some e" and "\<not> locked e"
  shows "f \<notin> set (readdirSync (fireTimer h v))"
proof -
  let ?u = "clearTimeout h v"
  have u: "map_of (files ?u) f = Some e" using assms(3) by (simp add: clearTimeout_def)
  have en: "entryOf (cleanupPath tm) = Some f" by (simp add: assms(2) entryOf_join)
  from cleanupCallback_unlocked[OF en u assms(4), of "cleanupId tm"] assms(1)
  have "files (fireTimer h v) = filter (\<lambda>(m, _). m \<noteq> f) (files ?u)"
    by (simp add: fireTimer_def)
  with removed_not_listed[of f "files ?u"] show ?thesis by (simp add: readdirSync_def)
qed

lemma fireTimers_delete:
  assumes "cleanupPath tm = join tempDir f" and "\<not> locked e"
  shows "f \<notin> set (readdirSync v)
           \<or> (h \<in> set hs \<and> map_of (timeouts v) h = Some tm \<and> map_of (files v) f = Some e)
         \<Longrightarrow> f \<notin> set (readdirSync (foldl (\<lambda>v h. fireTimer h v) v hs))"
proof (induction hs arbitrary: v)
  case Nil then show ?case by simp
next
  case (Cons k hs)
  have "f \<notin> set (readdirSync (fireTimer k v))
           \<or> (h \<in> set hs \<and> map_of (timeouts (fireTimer k v)) h = Some tm
               \<and> map_of (files (fireTimer k v)) f = Some e)"
  proof (cases "f \<in> set (readdirSync v)")
    case False
    then show ?thesis by (simp add: fireTimer_gone)
  next
    case True
    with Cons.prems have p: "h \<in> set (k # hs)" "map_of (timeouts v) h = Some tm"
      "map_of (files v) f = Some e" by auto
    show ?thesis
    proof (cases "k = h")
      case True
      with fireTimer_own[OF p(2) assms(1) p(3) assms(2)] show ?thesis by simp
    next
      case False
      with p(1) have "h \<in> set hs" by auto
      moreover from fireTimer_other[OF False, of v] p(2)
      have "map_of (timeouts (fireTimer k v)) h = Some tm" by simp
      ultimately show ?thesis using fireTimer_keeps[OF p(3), of k] by blast
    qed
  qed
  from Cons.IH[OF this] show ?case by simp
qed

lemma dueBy_member:
  "(h, tm) \<in> set (timeouts w) \<Longrightarrow> due tm \<le> t \<Longrightarrow> h \<in> set (dueBy t w)"
  by (force simp: dueBy_def)

lemma elapse_deletes:
  assumes "map_of (timeouts w) h = Some tm" and "due tm \<le> t"
    and "cleanupPath tm = join tempDir f" and "map_of (files w) f = Some e" and "\<not> locked e"
  shows "f \<notin> set (readdirSync (elapse t w))"
proof -
  let ?v = "w\<lparr>clock := max t (clock w)\<rparr>"
  from assms(1) have "(h, tm) \<in> set (timeouts w)" by (rule map_of_SomeD)
  from dueBy_member[OF this assms(2)] have "h \<in> set (dueBy t w)" .
  with assms(1,4) have "h \<in> set (dueBy t w) \<and> map_of (timeouts ?v) h = Some tm
      \<and> map_of (files ?v) f = Some e" by simp
  then show ?thesis
    unfolding elapse_def using fireTimers_delete[OF assms(3,5), of ?v h "dueBy t w"] by blast
qed

section \<open>Expiry of the artifact\<close>

lemma GET_unlisted:
  assumes "downloadId \<noteq> []" "filename \<noteq> []"
    and "\<forall>n \<in> set (readdirSync w). \<not> startsWith n downloadId"
  shows "GET downloadId filename rangeHeader w = notFound"
proof -
  from assms(3) have "find (\<lambda>f. startsWith f downloadId) (readdirSync w) = None"
    by (simp add: find_None_iff)
  with assms(1,2) show ?thesis by (simp add: GET_def)
qed

lemma map_of_fresh: "k \<notin> fst ` set xs \<Longrightarrow> map_of (xs @ [(k, v)]) k = Some v"
  by (induction xs) auto

section \<open>The filename argument\<close>

lemma agree_refl: "agree r r"
  by (simp add: agree_def)

lemma whole_agree:
  assumes "contentDisposition f1 = Inr d1" "contentDisposition f2 = Inr d2"
  shows "agree (whole p f1 sz ct w) (whole p f2 sz ct w)"
  using assms by (simp add: whole_def createReadStream_def agree_def header_def)

lemma partial_agree:
  assumes "contentDisposition f1 = Inr d1" "contentDisposition f2 = Inr d2"
  shows "agree (partial p f1 r sz ct w) (partial p f2 r sz ct w)"
proof -
  define parts where "parts = split CHR ''-'' (replaceStr ''bytes='' [] r)"
  define rs where "rs = (case parts of [] \<Rightarrow> None | p0 # _ \<Rightarrow> parseInt p0)"
  define re where "re = (case parts of _ # p1 # _ \<Rightarrow> if p1 \<noteq> [] then parseInt p1
                                      else Some (int sz - 1)
                      | _ \<Rightarrow> Some (int sz - 1))"
  have 1: "partial p f1 r sz ct w =
      (case createReadStream p (Some (rs, re)) w of
         Inl e \<Rightarrow> failed
       | Inr bs \<Rightarrow>
           (case (rs, re, contentDisposition f1) of
              (Some s, Some e, Inr disposition) \<Rightarrow>
                \<lparr>status = 206,
                 headers = [(''Content-Range'',
                               ''bytes '' @ showInt s @ ''-'' @ showInt e @ ''/'' @ showNat sz),
                            (''Accept-Ranges'', ''bytes''),
                            (''Content-Length'', showInt (e - s + 1)),
                            (''Content-Type'', ct),
                            (''Content-Disposition'', disposition),
                            (''Cache-Control'', ''no-cache'')],
                 payload = Bytes bs\<rparr>
            | _ \<Rightarrow> failed))" for f1
    unfolding partial_def Let_def parts_def rs_def re_def by (rule refl)
  show ?thesis
  proof (cases "createReadStream p (Some (rs, re)) w")
    case (Inl e)
    then show ?thesis unfolding 1 by (simp add: agree_refl)
  next
    case (Inr bs)
    show ?thesis
    proof (cases rs)
      case None
      with Inr show ?thesis unfolding 1 by (simp add: agree_refl)
    next
      case (Some s)
      show ?thesis
      proof (cases re)
        case None
        with Inr Some show ?thesis unfolding 1 by (simp add: agree_refl)
      next
        case (Some e)
        with Inr \<open>rs = Some s\<close> assms show ?thesis
          unfolding 1 by (simp add: agree_def header_def)
      qed
    qed
  qed
qed

lemma GET_agree:
  assumes "f1 \<noteq> []" "f2 \<noteq> []" "contentDisposition f1 = Inr d1" "contentDisposition f2 = Inr d2"
  shows "agree (GET downloadId f1 rh w) (GET downloadId f2 rh w)"
proof (cases "downloadId = []")
  case True
  then show ?thesis by (simp add: GET_def agree_refl)
next
  case False
  show ?thesis
  proof (cases "find (\<lambda>f. startsWith f downloadId) (readdirSync w)")
    case None
    with False assms(1,2) show ?thesis by (simp add: GET_def agree_refl)
  next
    case (Some a)
    show ?thesis
    proof (cases "existsSync (join tempDir a) w")
      case False
      with Some \<open>downloadId \<noteq> []\<close> assms(1,2) show ?thesis by (simp add: GET_def agree_refl)
    next
      case True
      show ?thesis
      proof (cases "statSync (join tempDir a) w")
        case (Inl e)
        with True Some \<open>downloadId \<noteq> []\<close> assms(1,2) show ?thesis
          by (simp add: GET_def agree_refl)
      next
        case (Inr sz)
        have g: "GET downloadId f rh w =
            (case rh of None \<Rightarrow> whole (join tempDir a) f sz (contentTypeOf a) w
             | Some r \<Rightarrow> if r = [] then whole (join tempDir a) f sz (contentTypeOf a) w
                         else partial (join tempDir a) f r sz (contentTypeOf a) w)"
          if "f \<noteq> []" for f
          using that True Some Inr \<open>downloadId \<noteq> []\<close> by (simp add: GET_def Let_def)
        show ?thesis
          unfolding g[OF assms(1)] g[OF assms(2)]
          using whole_agree[OF assms(3,4)] partial_agree[OF assms(3,4)]
          by (simp split: option.splits)
      qed
    qed
  qed
qed

section \<open>Byte ranges\<close>

lemma digit_char: "k < 10 \<Longrightarrow> (of_char (char_of (48 + k)) :: nat) = 48 + k"
  by (simp add: of_char_of)

lemma showNat_digits: "showNat n \<noteq> [] \<and> (\<forall>c \<in> set (showNat n). isDigit c)"
proof (induction n rule: showNat.induct)
  case (1 n)
  show ?case
  proof (cases "n < 10")
    case True
    then show ?thesis by (simp add: showNat.simps[of n] isDigit_def digit_char)
  next
    case False
    have "n mod 10 < 10" by simp
    from digit_char[OF this] have "isDigit (char_of (48 + n mod 10))" by (simp add: isDigit_def)
    with False 1 show ?thesis by (simp add: showNat.simps[of n])
  qed
qed

lemma digitValue_snoc:
  "digitValue (ds @ [c]) = 10 * digitValue ds + ((of_char c :: nat) - 48)"
  by (simp add: digitValue_def)

lemma digitValue_showNat: "digitValue (showNat n) = n"
proof (induction n rule: showNat.induct)
  case (1 n)
  show ?case
  proof (cases "n < 10")
    case True
    then show ?thesis by (simp add: showNat.simps[of n] digitValue_def digit_char)
  next
    case False
    have "n mod 10 < 10" by simp
    from digit_char[OF this] False 1 show ?thesis
      by (simp add: showNat.simps[of n] digitValue_snoc)
  qed
qed

lemma digit_plain: "isDigit c \<Longrightarrow> \<not> isSpace c \<and> c \<noteq> CHR ''-'' \<and> c \<noteq> CHR ''+''"
  by (auto simp: isDigit_def isSpace_def)

lemma parseInt_digits:
  assumes "ds \<noteq> []" and "\<forall>c \<in> set ds. isDigit c"
  shows "parseInt ds = Some (int (digitValue ds))"
proof -
  from assms obtain c r where ds: "ds = c # r" by (cases ds) auto
  with assms(2) have c: "isDigit c" by simp
  from digit_plain[OF c] have 1: "dropWhile isSpace ds = ds" by (simp add: ds)
  from assms(2) have 2: "takeWhile isDigit ds = ds" by (simp add: takeWhile_eq_all_conv)
  show ?thesis
    using digit_plain[OF c] assms(1) 2
    unfolding parseInt_def 1 by (simp add: ds)
qed

lemma parseInt_showNat: "parseInt (showNat n) = Some (int n)"
  using parseInt_digits[of "showNat n"] showNat_digits[of n] by (simp add: digitValue_showNat)

lemma split_plain: "sep \<notin> set s \<Longrightarrow> split sep s = [s]"
  by (induction s) auto

lemma split_at: "sep \<notin> set a \<Longrightarrow> split sep (a @ sep # b) = a # split sep b"
  by (induction a) auto

lemma showNat_no_dash: "CHR ''-'' \<notin> set (showNat n)"
  using showNat_digits[of n] digit_plain by blast

lemma range_parts:
  "split CHR ''-'' (replaceStr ''bytes='' [] (''bytes='' @ showNat s @ ''-'' @ showNat e))
     = [showNat s, showNat e]"
  "split CHR ''-'' (replaceStr ''bytes='' [] (''bytes='' @ showNat s @ ''-'')) = [showNat s, []]"
proof -
  have r: "replaceStr ''bytes='' [] (''bytes='' @ x) = x" for x
    using replaceStr_prefix[of "''bytes=''" "[]" x] by simp
  show "split CHR ''-'' (replaceStr ''bytes='' [] (''bytes='' @ showNat s @ ''-'' @ showNat e))
     = [showNat s, showNat e]"
    unfolding r using split_at[OF showNat_no_dash, of s "showNat e"]
      split_plain[OF showNat_no_dash, of e] by simp
  show "split CHR ''-'' (replaceStr ''bytes='' [] (''bytes='' @ showNat s @ ''-'')) = [showNat s, []]"
    unfolding r using split_at[OF showNat_no_dash, of s "[]"] by simp
qed

lemma bytesOf_entry: "map_of (files w) a = Some en \<Longrightarrow> bytesOf (join tempDir a) w = content en"
  by (simp add: bytesOf_def entryOf_join)

lemma GET_resolved:
  assumes "downloadId \<noteq> []" "filename \<noteq> []"
    and "find (\<lambda>f. startsWith f downloadId) (readdirSync w) = Some a"
    and "map_of (files w) a = Some en"
  shows "GET downloadId filename rh w =
     (case rh of
        None \<Rightarrow> whole (join tempDir a) filename (length (content en)) (contentTypeOf a) w
      | Some r \<Rightarrow>
          if r = [] then whole (join tempDir a) filename (length (content en)) (contentTypeOf a) w
          else partial (join tempDir a) filename r (length (content en)) (contentTypeOf a) w)"
proof -
  from assms(4) have "existsSync (join tempDir a) w"
    by (auto simp: existsSync_map_of entryOf_join)
  with assms statSync_entry[OF assms(4)] show ?thesis by (simp add: GET_def Let_def)
qed

lemma whole_result:
  assumes "contentDisposition filename = Inr d" and "map_of (files w) a = Some en"
  shows "whole (join tempDir a) filename sz ct w =
     \<lparr>status = 200,
      headers = [(''Content-Type'', ct), (''Content-Length'', showNat sz),
                 (''Content-Disposition'', d), (''Cache-Control'', ''no-cache'')],
      payload = Bytes (content en)\<rparr>"
  using assms by (simp add: whole_def createReadStream_def bytesOf_entry)

lemma partial_result:
  assumes "contentDisposition filename = Inr d" and "map_of (files w) a = Some en"
    and "split CHR ''-'' (replaceStr ''bytes='' [] r) = [showNat s, p1]"
    and "(if p1 \<noteq> [] then parseInt p1 else Some (int sz - 1)) = Some (int e)"
    and "s \<le> e" and "e \<le> 9007199254740991"
  shows "partial (join tempDir a) filename r sz ct w =
     \<lparr>status = 206,
      headers = [(''Content-Range'',
                    ''bytes '' @ showNat s @ ''-'' @ showNat e @ ''/'' @ showNat sz),
                 (''Accept-Ranges'', ''bytes''),
                 (''Content-Length'', showNat (e - s + 1)),
                 (''Content-Type'', ct),
                 (''Content-Disposition'', d),
                 (''Cache-Control'', ''no-cache'')],
      payload = Bytes (take (e - s + 1) (drop s (content en)))\<rparr>"
proof -
  have n: "nat (int e - int s + 1) = e - s + 1" "showInt (int e - int s + 1) = showNat (e - s + 1)"
    "showInt (int s) = showNat s" "showInt (int e) = showNat e"
    using assms(5) by (simp_all add: showInt_def nat_diff_distrib' nat_add_distrib)
  have c: "createReadStream (join tempDir a) (Some (Some (int s), Some (int e))) w
      = Inr (take (e - s + 1) (drop s (content en)))"
    using assms(2,5,6) n(1) by (simp add: createReadStream_def bytesOf_entry)
  show ?thesis
    unfolding partial_def Let_def assms(3)
    using assms(1,4) c n by (simp add: parseInt_showNat)
qed

section \<open>Admission by fixed windows\<close>









section \<open>The filename argument of a request\<close>

text \<open>
  C10, as amended. Take two artifact-serve requests against the same directory state,
  with the same job id and the same range header, whose filename arguments are both
  non-empty and both accepted for the \<open>Content-Disposition\<close> header (they
  percent-decode, and the decoded text is a valid header value). Their responses have
  the same status and the same body, the same header names, and the same value for
  every header other than \<open>Content-Disposition\<close>. The file served is found from the job
  id alone.
\<close>

theorem filename_only_disposition:
  "filename1 \<noteq> [] \<and> filename2 \<noteq> []
   \<and> contentDisposition filename1 = Inr d1 \<and> contentDisposition filename2 = Inr d2 \<longrightarrow>
     status (GET downloadId filename1 rangeHeader w) = status (GET downloadId filename2 rangeHeader w)
     \<and> payload (GET downloadId filename1 rangeHeader w)
         = payload (GET downloadId filename2 rangeHeader w)
     \<and> map fst (headers (GET downloadId filename1 rangeHeader w))
         = map fst (headers (GET downloadId filename2 rangeHeader w))
     \<and> (\<forall>name. name \<noteq> ''Content-Disposition'' \<longrightarrow>
           header name (GET downloadId filename1 rangeHeader w)
             = header name (GET downloadId filename2 rangeHeader w))"
proof (intro impI, elim conjE)
  assume "filename1 \<noteq> []" "filename2 \<noteq> []"
    "contentDisposition filename1 = Inr d1" "contentDisposition filename2 = Inr d2"
  from GET_agree[OF this, of downloadId rangeHeader w]
  show "status (GET downloadId filename1 rangeHeader w) = status (GET downloadId filename2 rangeHeader w)
     \<and> payload (GET downloadId filename1 rangeHeader w)
         = payload (GET downloadId filename2 rangeHeader w)
     \<and> map fst (headers (GET downloadId filename1 rangeHeader w))
         = map fst (headers (GET downloadId filename2 rangeHeader w))
     \<and> (\<forall>name. name \<noteq> ''Content-Disposition'' \<longrightarrow>
           header name (GET downloadId filename1 rangeHeader w)
             = header name (GET downloadId filename2 rangeHeader w))"
    unfolding agree_def .
qed

theorem filename_only_disposition_witness:
  "status (GET ''job'' ''a.mp3'' (Some ''bytes=2-5'')
      (emptyWorld\<lparr>files := [(''job.mp3'', \<lparr>content = ''0123456789'', locked = False\<rparr>)]\<rparr>))
     = status (GET ''job'' ''b%20c.mp3'' (Some ''bytes=2-5'')
      (emptyWorld\<lparr>files := [(''job.mp3'', \<lparr>content = ''0123456789'', locked = False\<rparr>)]\<rparr>))
   \<and> payload (GET ''job'' ''a.mp3'' (Some ''bytes=2-5'')
      (emptyWorld\<lparr>files := [(''job.mp3'', \<lparr>content = ''0123456789'', locked = False\<rparr>)]\<rparr>))
     = payload (GET ''job'' ''b%20c.mp3'' (Some ''bytes=2-5'')
      (emptyWorld\<lparr>files := [(''job.mp3'', \<lparr>content = ''0123456789'', locked = False\<rparr>)]\<rparr>))
   \<and> header ''Content-Length'' (GET ''job'' ''a.mp3'' (Some ''bytes=2-5'')
      (emptyWorld\<lparr>files := [(''job.mp3'', \<lparr>content = ''0123456789'', locked = False\<rparr>)]\<rparr>))
     = header ''Content-Length'' (GET ''job'' ''b%20c.mp3'' (Some ''bytes=2-5'')
      (emptyWorld\<lparr>files := [(''job.mp3'', \<lparr>content = ''0123456789'', locked = False\<rparr>)]\<rparr>))"
proof -
  have d1: "contentDisposition ''a.mp3'' = Inr (''attachment; filename='' @ [CHR 0x22] @ ''a.mp3'' @ [CHR 0x22])"
    by code_simp
  have d2: "contentDisposition ''b%20c.mp3''
      = Inr (''attachment; filename='' @ [CHR 0x22] @ ''b c.mp3'' @ [CHR 0x22])"
    by code_simp
  have n: "''a.mp3'' \<noteq> []" "''b%20c.mp3'' \<noteq> []" "''Content-Length'' \<noteq> ''Content-Disposition''"
    by simp_all
  note th = filename_only_disposition[of "''a.mp3''" "''b%20c.mp3''" _ _ "''job''"
      "Some ''bytes=2-5''"
      "emptyWorld\<lparr>files := [(''job.mp3'', \<lparr>content = ''0123456789'', locked = False\<rparr>)]\<rparr>"]
  have pre: "''a.mp3'' \<noteq> [] \<and> ''b%20c.mp3'' \<noteq> []
      \<and> contentDisposition ''a.mp3''
          = Inr (''attachment; filename='' @ [CHR 0x22] @ ''a.mp3'' @ [CHR 0x22])
      \<and> contentDisposition ''b%20c.mp3''
          = Inr (''attachment; filename='' @ [CHR 0x22] @ ''b c.mp3'' @ [CHR 0x22])"
    using n(1,2) d1 d2 by (intro conjI)
  note r = mp[OF th pre]
  note r1 = conjunct1[OF r] and r2 = conjunct1[OF conjunct2[OF r]]
    and r4 = conjunct2[OF conjunct2[OF conjunct2[OF r]]]
  note r5 = mp[OF spec[OF r4, of "''Content-Length''"] n(3)]
  from r1 r2 r5 show ?thesis by (intro conjI)
qed

text \<open>
  C10, as stated, fails. With the same directory and the same job id, the filename
  \<open>a.mp3\<close> is answered 200 with the bytes of the file, the filename \<open>%\<close>, which does
  not percent-decode, is answered 500, and the empty filename is answered 400.
\<close>

theorem filename_status_counterexample:
  "status (GET ''job'' ''a.mp3'' None
      (emptyWorld\<lparr>files := [(''job.mp3'', \<lparr>content = ''0123456789'', locked = False\<rparr>)]\<rparr>))
     = 200
   \<and> status (GET ''job'' ''%'' None
      (emptyWorld\<lparr>files := [(''job.mp3'', \<lparr>content = ''0123456789'', locked = False\<rparr>)]\<rparr>))
     = 500
   \<and> status (GET ''job'' [] None
      (emptyWorld\<lparr>files := [(''job.mp3'', \<lparr>content = ''0123456789'', locked = False\<rparr>)]\<rparr>))
     = 400
   \<and> payload (GET ''job'' ''a.mp3'' None
      (emptyWorld\<lparr>files := [(''job.mp3'', \<lparr>content = ''0123456789'', locked = False\<rparr>)]\<rparr>))
     = Bytes ''0123456789''
   \<and> payload (GET ''job'' ''%'' None
      (emptyWorld\<lparr>files := [(''job.mp3'', \<lparr>content = ''0123456789'', locked = False\<rparr>)]\<rparr>))
     = JsonError ''Failed to download file''
   \<and> payload (GET ''job'' [] None
      (emptyWorld\<lparr>files := [(''job.mp3'', \<lparr>content = ''0123456789'', locked = False\<rparr>)]\<rparr>))
     = JsonError ''Missing parameters''"
  by code_simp

section \<open>Exit with code zero\<close>

lemma replaceStr_absent: "p \<noteq> [] \<Longrightarrow> \<not> includesStr s p \<Longrightarrow> replaceStr p r s = s"
  by (induction s) auto

lemma nearest_hundredth:
  "2097152 * ((x :: int) div 2097152) \<le> x \<and> x < 2097152 * (x div 2097152 + 1)"
proof -
  define q where "q = x div 2097152"
  define r where "r = x mod 2097152"
  have 1: "x = 2097152 * q + r" unfolding q_def r_def by simp
  have 2: "0 \<le> r" "r < 2097152" unfolding r_def by simp_all
  from 1 2 have "2097152 * q \<le> x" by linarith
  moreover from 1 2 have "x < 2097152 * q + 2097152" by linarith
  then have "x < 2097152 * (q + 1)" by (simp add: distrib_left)
  ultimately show ?thesis unfolding q_def by (rule conjI)
qed

text \<open>
  C4, as amended. When the process exits with code 0 while the stream of the job is still
  open (no terminal event has been published) and exactly one entry \<open>f\<close> of the output
  directory starts with the job id, the listener publishes a \<open>complete\<close> event and closes
  the stream. The filename of the event is the rest of \<open>f\<close> when \<open>f\<close> is the job id, a dot
  and the rest, and the whole of \<open>f\<close> when \<open>f\<close> does not contain the job id followed by a
  dot. The size of the event is the measured length of the file in megabytes rounded to
  two decimals: with \<open>n\<close> the integer nearest to a hundred times the length divided by
  \<open>2^20\<close> (the larger one on a tie), it is the text of \<open>n div 100\<close>, a point, and the two last
  digits of \<open>n\<close>, followed by \<open>MB\<close>. A cleanup timer for the path of \<open>f\<close>, due three minutes
  later, is set and recorded under the job id. When no entry starts with the job id, the
  listener publishes the error \<open>Downloaded file not found\<close> as last event and sets no
  timer. In both cases the job leaves the registry.
\<close>

theorem close_zero_outcome:
  "\<not> closed c \<longrightarrow>
     (\<forall>f. filter (\<lambda>n. startsWith n downloadId) (readdirSync w) = [f] \<longrightarrow>
        (\<exists>e c1 w1 name n. map_of (files w) f = Some e
           \<and> snd (onClose downloadId (Some 0) (c, w)) = (c1, w1)
           \<and> queue c1 = queue c @
                [Complete downloadId name
                   (showInt (n div 100) @ ''.'' @ showInt (n mod 100 div 10) @ showInt (n mod 10)
                      @ '' MB'')
                   (''/api/download-file/'' @ downloadId @ ''/'' @ encodeURIComponent name)]
           \<and> closed c1
           \<and> (\<forall>rest. f = downloadId @ ''.'' @ rest \<longrightarrow> name = rest)
           \<and> (\<not> includesStr f (downloadId @ ''.'') \<longrightarrow> name = f)
           \<and> 2097152 * n \<le> int (length (content e)) * 200 + 1048576
           \<and> int (length (content e)) * 200 + 1048576 < 2097152 * (n + 1)
           \<and> timeouts w1 = timeouts w @
                [(nextTimer w, \<lparr>due = clock w + 180000, cleanupPath = join tempDir f,
                                cleanupId = downloadId\<rparr>)]
           \<and> fileCleanupTimers w1 downloadId = Some (nextTimer w)
           \<and> activeDownloads w1 downloadId = None
           \<and> files w1 = files w))
     \<and> (filter (\<lambda>n. startsWith n downloadId) (readdirSync w) = [] \<longrightarrow>
          (\<exists>c1 w1. snd (onClose downloadId (Some 0) (c, w)) = (c1, w1)
             \<and> queue c1 = queue c @ [Error downloadId ''Downloaded file not found'']
             \<and> closed c1
             \<and> timeouts w1 = timeouts w
             \<and> fileCleanupTimers w1 = fileCleanupTimers w
             \<and> activeDownloads w1 downloadId = None))"
proof (intro impI conjI allI)
  fix f
  assume o: "\<not> closed c" and one: "filter (\<lambda>n. startsWith n downloadId) (readdirSync w) = [f]"
  from find_filter_Cons[OF one] have fd: "find (\<lambda>n. startsWith n downloadId) (readdirSync w) = Some f" .
  have "f \<in> set (filter (\<lambda>n. startsWith n downloadId) (readdirSync w))" unfolding one by simp
  then have "f \<in> set (readdirSync w)" by simp
  from listed_entry[OF this] obtain e where e: "map_of (files w) f = Some e" by blast
  define name where "name = replaceStr (downloadId @ ''.'') [] f"
  define n where "n = (int (length (content e)) * 200 + 1048576) div 2097152"
  have r: "\<forall>rest. f = downloadId @ ''.'' @ rest \<longrightarrow> name = rest"
    unfolding name_def using replaceStr_prefix[of "downloadId @ ''.''" "[]"] by auto
  have a: "\<not> includesStr f (downloadId @ ''.'') \<longrightarrow> name = f"
    unfolding name_def using replaceStr_absent[of "downloadId @ ''.''" f "[]"] by simp
  have lo: "2097152 * n \<le> int (length (content e)) * 200 + 1048576"
    and hi: "int (length (content e)) * 200 + 1048576 < 2097152 * (n + 1)"
    unfolding n_def using nearest_hundredth[of "int (length (content e)) * 200 + 1048576"]
    by simp_all
  have sz: "fileSizeInMB (length (content e))
      = showInt (n div 100) @ ''.'' @ showInt (n mod 100 div 10) @ showInt (n mod 10)"
    unfolding n_def by (simp add: fileSizeInMB_def Let_def)
  note res = onClose_found[OF o fd e, folded name_def, unfolded sz]
  show "\<exists>e c1 w1 name n. map_of (files w) f = Some e
           \<and> snd (onClose downloadId (Some 0) (c, w)) = (c1, w1)
           \<and> queue c1 = queue c @
                [Complete downloadId name
                   (showInt (n div 100) @ ''.'' @ showInt (n mod 100 div 10) @ showInt (n mod 10)
                      @ '' MB'')
                   (''/api/download-file/'' @ downloadId @ ''/'' @ encodeURIComponent name)]
           \<and> closed c1
           \<and> (\<forall>rest. f = downloadId @ ''.'' @ rest \<longrightarrow> name = rest)
           \<and> (\<not> includesStr f (downloadId @ ''.'') \<longrightarrow> name = f)
           \<and> 2097152 * n \<le> int (length (content e)) * 200 + 1048576
           \<and> int (length (content e)) * 200 + 1048576 < 2097152 * (n + 1)
           \<and> timeouts w1 = timeouts w @
                [(nextTimer w, \<lparr>due = clock w + 180000, cleanupPath = join tempDir f,
                                cleanupId = downloadId\<rparr>)]
           \<and> fileCleanupTimers w1 downloadId = Some (nextTimer w)
           \<and> activeDownloads w1 downloadId = None
           \<and> files w1 = files w"
    apply (rule exI[of _ e])
    apply (rule exI)
    apply (rule exI)
    apply (rule exI[of _ name])
    apply (rule exI[of _ n])
    apply (intro conjI)
               apply (rule e)
              apply (rule res)
             apply simp
            apply simp
           apply (rule r)
          apply (rule a)
         apply (rule lo)
        apply (rule hi)
       apply (simp_all add: scheduleFileCleanup_world)
    done
next
  assume o: "\<not> closed c" and none: "filter (\<lambda>n. startsWith n downloadId) (readdirSync w) = []"
  from find_filter_Nil[OF none] have fd: "find (\<lambda>n. startsWith n downloadId) (readdirSync w) = None" .
  note res = onClose_missing[OF o fd]
  show "\<exists>c1 w1. snd (onClose downloadId (Some 0) (c, w)) = (c1, w1)
             \<and> queue c1 = queue c @ [Error downloadId ''Downloaded file not found'']
             \<and> closed c1
             \<and> timeouts w1 = timeouts w
             \<and> fileCleanupTimers w1 = fileCleanupTimers w
             \<and> activeDownloads w1 downloadId = None"
    apply (intro exI conjI)
         apply (rule res)
        apply simp_all
    done
qed

theorem close_zero_outcome_witness:
  "queue (fst (snd (onClose ''job'' (Some 0)
      (\<lparr>queue = [Started ''job'' ''Starting download...''], closed = False\<rparr>,
       emptyWorld\<lparr>files := [(''job.mp3'',
          \<lparr>content = replicate 6000 (CHR ''a''), locked = False\<rparr>)]\<rparr>))))
     = [Started ''job'' ''Starting download...'',
        Complete ''job'' ''mp3'' ''0.01 MB'' ''/api/download-file/job/mp3'']
   \<and> fileCleanupTimers (snd (snd (onClose ''job'' (Some 0)
      (\<lparr>queue = [Started ''job'' ''Starting download...''], closed = False\<rparr>,
       emptyWorld\<lparr>files := [(''job.mp3'',
          \<lparr>content = replicate 6000 (CHR ''a''), locked = False\<rparr>)]\<rparr>)))) ''job''
     = Some 0
   \<and> queue (fst (snd (onClose ''job'' (Some 0)
      (\<lparr>queue = [Started ''job'' ''Starting download...''], closed = False\<rparr>, emptyWorld))))
     = [Started ''job'' ''Starting download...'', Error ''job'' ''Downloaded file not found'']"
proof -
  define c0 where "c0 = \<lparr>queue = [Started ''job'' ''Starting download...''], closed = False\<rparr>"
  define w0 where
    "w0 = emptyWorld\<lparr>files := [(''job.mp3'',
             \<lparr>content = replicate 6000 (CHR ''a''), locked = False\<rparr>)]\<rparr>"
  have o: "\<not> closed c0" by (simp add: c0_def)
  have one: "filter (\<lambda>n. startsWith n ''job'') (readdirSync w0) = [''job.mp3'']"
    by (simp add: w0_def readdirSync_def startsWith_def emptyWorld_def)
  have none: "filter (\<lambda>n. startsWith n ''job'') (readdirSync emptyWorld) = []"
    by (simp add: readdirSync_def emptyWorld_def)
  have nm: "''job.mp3'' = ''job'' @ ''.'' @ ''mp3''" by simp
  have sz: "showInt ((1 :: int) div 100) @ ''.'' @ showInt (1 mod 100 div 10) @ showInt (1 mod 10)
              @ '' MB'' = ''0.01 MB''"
    by code_simp
  have en: "encodeURIComponent ''mp3'' = ''mp3''" by code_simp
  have nt: "nextTimer w0 = 0" by (simp add: w0_def emptyWorld_def)
  from close_zero_outcome[of c0 "''job''" w0] o one obtain e c1 w1 name n where
    r: "map_of (files w0) ''job.mp3'' = Some e"
       "snd (onClose ''job'' (Some 0) (c0, w0)) = (c1, w1)"
       "queue c1 = queue c0 @
          [Complete ''job'' name
             (showInt (n div 100) @ ''.'' @ showInt (n mod 100 div 10) @ showInt (n mod 10)
                @ '' MB'')
             (''/api/download-file/'' @ ''job'' @ ''/'' @ encodeURIComponent name)]"
       "\<forall>rest. ''job.mp3'' = ''job'' @ ''.'' @ rest \<longrightarrow> name = rest"
       "2097152 * n \<le> int (length (content e)) * 200 + 1048576"
       "int (length (content e)) * 200 + 1048576 < 2097152 * (n + 1)"
       "fileCleanupTimers w1 ''job'' = Some (nextTimer w0)"
    by blast
  from r(4) nm have rp: "name = ''mp3''" by blast
  from r(1) have e: "length (content e) = 6000" by (auto simp: w0_def)
  from r(5,6) have n: "n = 1" unfolding e by simp
  have q1: "queue (fst (snd (onClose ''job'' (Some 0) (c0, w0))))
     = [Started ''job'' ''Starting download...'',
        Complete ''job'' ''mp3'' ''0.01 MB'' ''/api/download-file/job/mp3'']"
    unfolding r(2) fst_conv r(3) rp n sz en by (simp add: c0_def)
  have t1: "fileCleanupTimers (snd (snd (onClose ''job'' (Some 0) (c0, w0)))) ''job'' = Some 0"
    unfolding r(2) snd_conv r(7) nt by (rule refl)
  from close_zero_outcome[of c0 "''job''" emptyWorld] o none obtain c2 w2 where
    m: "snd (onClose ''job'' (Some 0) (c0, emptyWorld)) = (c2, w2)"
       "queue c2 = queue c0 @ [Error ''job'' ''Downloaded file not found'']"
    by blast
  have q2: "queue (fst (snd (onClose ''job'' (Some 0) (c0, emptyWorld))))
     = [Started ''job'' ''Starting download...'', Error ''job'' ''Downloaded file not found'']"
    unfolding m(1) fst_conv m(2) by (simp add: c0_def)
  from q1 t1 q2 show ?thesis unfolding c0_def w0_def by (intro conjI)
qed

text \<open>
  C4, as stated, fails. First, the process writes an error line, so that the stream gets
  its terminal error event and is closed, and then exits with code 0 while exactly one
  file, \<open>job.mp3\<close>, starts with the job id: no \<open>complete\<close> event is published, yet the
  cleanup timer is set. Second, on an open stream with the single file \<open>jobx.mp3\<close>, which
  starts with the job id \<open>job\<close>, the filename of the \<open>complete\<close> event is the whole name
  \<open>jobx.mp3\<close>: what is removed from a name is the job id together with a dot.
\<close>

theorem close_zero_counterexample:
  "filter (\<lambda>n. startsWith n ''job'')
      (readdirSync (emptyWorld\<lparr>files := [(''job.mp3'', \<lparr>content = ''abc'', locked = False\<rparr>)]\<rparr>))
     = [''job.mp3'']
   \<and> queue (fst (run ''job'' [StderrData ''ERROR: unavailable'', Close (Some 0)]
        (snd (start ''job'' 7
          (emptyWorld\<lparr>files := [(''job.mp3'', \<lparr>content = ''abc'', locked = False\<rparr>)]\<rparr>)))))
     = [Started ''job'' ''Starting download...'',
        Error ''job'' ''Download failed: ERROR: unavailable'']
   \<and> timeouts (snd (run ''job'' [StderrData ''ERROR: unavailable'', Close (Some 0)]
        (snd (start ''job'' 7
          (emptyWorld\<lparr>files := [(''job.mp3'', \<lparr>content = ''abc'', locked = False\<rparr>)]\<rparr>)))))
     = [(0, \<lparr>due = 180000, cleanupPath = ''/tmp/youtube-downloads/job.mp3'', cleanupId = ''job''\<rparr>)]
   \<and> fileCleanupTimers (snd (run ''job'' [StderrData ''ERROR: unavailable'', Close (Some 0)]
        (snd (start ''job'' 7
          (emptyWorld\<lparr>files := [(''job.mp3'', \<lparr>content = ''abc'', locked = False\<rparr>)]\<rparr>))))) ''job''
     = Some 0
   \<and> filter (\<lambda>n. startsWith n ''job'')
      (readdirSync (emptyWorld\<lparr>files := [(''jobx.mp3'', \<lparr>content = ''abc'', locked = False\<rparr>)]\<rparr>))
     = [''jobx.mp3'']
   \<and> queue (fst (run ''job'' [Close (Some 0)]
        (snd (start ''job'' 7
          (emptyWorld\<lparr>files := [(''jobx.mp3'', \<lparr>content = ''abc'', locked = False\<rparr>)]\<rparr>)))))
     = [Started ''job'' ''Starting download...'',
        Complete ''job'' ''jobx.mp3'' ''0.00 MB'' ''/api/download-file/job/jobx.mp3'']"
  by code_simp

section \<open>Cancellation of a running job\<close>









section \<open>Cleanup timers\<close>











section \<open>Expiry of a completed job's artifact\<close>

text \<open>
  C7, as amended. Take a job that reaches \<open>complete\<close>: its process exits with code 0
  while its stream is open and exactly one entry \<open>f\<close> of the directory starts with the job
  id. The artifact exists right after completion. If the removal of the file succeeds
  when the cleanup timer fires, then once the clock has passed the retention delay of
  three minutes the artifact no longer exists and a fetch for the job, with a non-empty
  id, any non-empty filename and any range, is answered 404
  \<open>File not found or has expired\<close>: the fetch finds the file by scanning the directory for
  the id prefix at request time. The handle that the runtime gives to the new timer is
  fresh, that is, not the handle of a timer that is pending.
\<close>

theorem artifact_expires:
  "\<not> closed c \<and> downloadId \<noteq> [] \<and> filename \<noteq> []
   \<and> filter (\<lambda>n. startsWith n downloadId) (readdirSync w) = [f]
   \<and> map_of (files w) f = Some e \<and> \<not> locked e
   \<and> nextTimer w \<notin> fst ` set (timeouts w)
   \<and> clock w + 180000 \<le> t \<longrightarrow>
     isComplete (last (queue (fst (snd (onClose downloadId (Some 0) (c, w))))))
     \<and> existsSync (join tempDir f) (snd (snd (onClose downloadId (Some 0) (c, w))))
     \<and> \<not> existsSync (join tempDir f) (elapse t (snd (snd (onClose downloadId (Some 0) (c, w)))))
     \<and> GET downloadId filename rangeHeader
          (elapse t (snd (snd (onClose downloadId (Some 0) (c, w))))) = notFound"
proof (intro impI, elim conjE)
  assume o: "\<not> closed c" and d: "downloadId \<noteq> []" and fn: "filename \<noteq> []"
    and one: "filter (\<lambda>n. startsWith n downloadId) (readdirSync w) = [f]"
    and e: "map_of (files w) f = Some e" and ul: "\<not> locked e"
    and fresh: "nextTimer w \<notin> fst ` set (timeouts w)" and t: "clock w + 180000 \<le> t"
  let ?w = "w\<lparr>activeDownloads := (activeDownloads w)(downloadId := None)\<rparr>"
  define w1 where "w1 = scheduleFileCleanup (join tempDir f) downloadId ?w"
  define tm where "tm = \<lparr>due = clock w + 180000, cleanupPath = join tempDir f,
                          cleanupId = downloadId\<rparr>"
  from find_filter_Cons[OF one]
  have fd: "find (\<lambda>n. startsWith n downloadId) (readdirSync w) = Some f" .
  note res = onClose_found[OF o fd e]
  have w1: "snd (snd (onClose downloadId (Some 0) (c, w))) = w1"
    unfolding res w1_def by simp
  have q: "isComplete (last (queue (fst (snd (onClose downloadId (Some 0) (c, w))))))"
    unfolding res by simp
  have fl: "files w1 = files w" by (simp add: w1_def scheduleFileCleanup_world)
  have tmo: "timeouts w1 = timeouts w @ [(nextTimer w, tm)]"
    by (simp add: w1_def tm_def scheduleFileCleanup_world)
  have m: "map_of (timeouts w1) (nextTimer w) = Some tm"
    unfolding tmo using fresh by (rule map_of_fresh)
  have listed: "f \<in> set (readdirSync w)"
  proof -
    have "f \<in> set (filter (\<lambda>n. startsWith n downloadId) (readdirSync w))" unfolding one by simp
    then show ?thesis by simp
  qed
  have ex: "existsSync (join tempDir f) w1"
    using listed by (simp add: existsSync_listed readdirSync_def fl)
  have due: "due tm \<le> t" using t by (simp add: tm_def)
  have cp: "cleanupPath tm = join tempDir f" by (simp add: tm_def)
  have e1: "map_of (files w1) f = Some e" using e by (simp add: fl)
  from elapse_deletes[OF m due cp e1 ul] have gone: "f \<notin> set (readdirSync (elapse t w1))" .
  then have nex: "\<not> existsSync (join tempDir f) (elapse t w1)" by (simp add: existsSync_listed)
  have "\<forall>n \<in> set (readdirSync (elapse t w1)). \<not> startsWith n downloadId"
  proof
    fix n assume n: "n \<in> set (readdirSync (elapse t w1))"
    with elapse_frame[of t w1] have "n \<in> set (readdirSync w)"
      by (auto simp: readdirSync_def fl)
    show "\<not> startsWith n downloadId"
    proof
      assume "startsWith n downloadId"
      with \<open>n \<in> set (readdirSync w)\<close>
      have "n \<in> set (filter (\<lambda>n. startsWith n downloadId) (readdirSync w))" by simp
      then have "n = f" unfolding one by simp
      with n gone show False by simp
    qed
  qed
  from GET_unlisted[OF d fn this]
  have g: "GET downloadId filename rangeHeader (elapse t w1) = notFound" .
  from q ex nex g show "isComplete (last (queue (fst (snd (onClose downloadId (Some 0) (c, w))))))
     \<and> existsSync (join tempDir f) (snd (snd (onClose downloadId (Some 0) (c, w))))
     \<and> \<not> existsSync (join tempDir f) (elapse t (snd (snd (onClose downloadId (Some 0) (c, w)))))
     \<and> GET downloadId filename rangeHeader
          (elapse t (snd (snd (onClose downloadId (Some 0) (c, w))))) = notFound"
    unfolding w1 by (intro conjI)
qed

theorem artifact_expires_witness:
  "existsSync (join tempDir ''job.mp3'')
     (snd (snd (onClose ''job'' (Some 0)
        (\<lparr>queue = [Started ''job'' ''Starting download...''], closed = False\<rparr>,
         emptyWorld\<lparr>files := [(''job.mp3'', \<lparr>content = ''abc'', locked = False\<rparr>)]\<rparr>))))
   \<and> GET ''job'' ''mp3'' None
       (elapse 180000 (snd (snd (onClose ''job'' (Some 0)
          (\<lparr>queue = [Started ''job'' ''Starting download...''], closed = False\<rparr>,
           emptyWorld\<lparr>files := [(''job.mp3'', \<lparr>content = ''abc'', locked = False\<rparr>)]\<rparr>)))))
     = notFound"
proof -
  define c0 where "c0 = \<lparr>queue = [Started ''job'' ''Starting download...''], closed = False\<rparr>"
  define w0 where
    "w0 = emptyWorld\<lparr>files := [(''job.mp3'', \<lparr>content = ''abc'', locked = False\<rparr>)]\<rparr>"
  have h: "\<not> closed c0" "''job'' \<noteq> []" "''mp3'' \<noteq> []"
    "filter (\<lambda>n. startsWith n ''job'') (readdirSync w0) = [''job.mp3'']"
    "map_of (files w0) ''job.mp3'' = Some \<lparr>content = ''abc'', locked = False\<rparr>"
    "\<not> locked \<lparr>content = ''abc'', locked = False\<rparr>"
    "nextTimer w0 \<notin> fst ` set (timeouts w0)"
    "clock w0 + 180000 \<le> 180000"
    by (simp_all add: c0_def w0_def emptyWorld_def readdirSync_def startsWith_def)
  from artifact_expires[of c0 "''job''" "''mp3''" w0 "''job.mp3''"
      "\<lparr>content = ''abc'', locked = False\<rparr>" 180000 None] h
  show ?thesis unfolding c0_def w0_def by blast
qed

text \<open>
  C7, as stated, fails. A job completes with the single file \<open>job.mp3\<close>, whose removal
  fails. When the retention delay has passed the timer fires, \<open>unlinkSync\<close> throws and
  the file stays: the artifact still exists after the delay, and a fetch after the delay
  is answered 200 with its bytes.
\<close>

theorem fetch_after_delay_counterexample:
  "filter (\<lambda>n. startsWith n ''job'')
      (readdirSync (emptyWorld\<lparr>files := [(''job.mp3'', \<lparr>content = ''abc'', locked = True\<rparr>)]\<rparr>))
     = [''job.mp3'']
   \<and> queue (fst (run ''job'' [Close (Some 0), Elapse 180000]
      (snd (start ''job'' 7
         (emptyWorld\<lparr>files := [(''job.mp3'', \<lparr>content = ''abc'', locked = True\<rparr>)]\<rparr>)))))
     = [Started ''job'' ''Starting download...'',
        Complete ''job'' ''mp3'' ''0.00 MB'' ''/api/download-file/job/mp3'']
   \<and> timeouts (snd (run ''job'' [Close (Some 0), Elapse 180000]
      (snd (start ''job'' 7
         (emptyWorld\<lparr>files := [(''job.mp3'', \<lparr>content = ''abc'', locked = True\<rparr>)]\<rparr>)))))
     = []
   \<and> clock (snd (run ''job'' [Close (Some 0), Elapse 180000]
      (snd (start ''job'' 7
         (emptyWorld\<lparr>files := [(''job.mp3'', \<lparr>content = ''abc'', locked = True\<rparr>)]\<rparr>)))))
     = 180000
   \<and> existsSync ''/tmp/youtube-downloads/job.mp3'' (snd (run ''job'' [Close (Some 0), Elapse 180000]
      (snd (start ''job'' 7
         (emptyWorld\<lparr>files := [(''job.mp3'', \<lparr>content = ''abc'', locked = True\<rparr>)]\<rparr>)))))
   \<and> status (GET ''job'' ''mp3'' None (snd (run ''job'' [Close (Some 0), Elapse 180000]
      (snd (start ''job'' 7
         (emptyWorld\<lparr>files := [(''job.mp3'', \<lparr>content = ''abc'', locked = True\<rparr>)]\<rparr>))))))
     = 200
   \<and> payload (GET ''job'' ''mp3'' None (snd (run ''job'' [Close (Some 0), Elapse 180000]
      (snd (start ''job'' 7
         (emptyWorld\<lparr>files := [(''job.mp3'', \<lparr>content = ''abc'', locked = True\<rparr>)]\<rparr>))))))
     = Bytes ''abc''"
  by code_simp

section \<open>Byte ranges inside the file\<close>

text \<open>
  C8, as stated, fails. The file has 10 bytes. For a range that reaches past the end of
  the file, \<open>bytes=0-999\<close>, the answer is 206 with \<open>Content-Length\<close> 1000 and
  \<open>Content-Range\<close> \<open>bytes 0-999/10\<close>, while the body has the 10 bytes of the file. A
  suffix range \<open>bytes=-5\<close> and a range with \<open>s\<close> above \<open>e\<close>, \<open>bytes=5-2\<close>, are answered
  500. With the filename \<open>%\<close>, which does not percent-decode, a range inside the file and
  a request without a range are answered 500; with an empty filename they are answered
  400.
\<close>

theorem range_past_end:
  "status (GET ''job'' ''a.mp3'' (Some ''bytes=0-999'')
      (emptyWorld\<lparr>files := [(''job.mp3'', \<lparr>content = ''0123456789'', locked = False\<rparr>)]\<rparr>))
     = 206
   \<and> header ''Content-Length'' (GET ''job'' ''a.mp3'' (Some ''bytes=0-999'')
      (emptyWorld\<lparr>files := [(''job.mp3'', \<lparr>content = ''0123456789'', locked = False\<rparr>)]\<rparr>))
     = Some ''1000''
   \<and> header ''Content-Range'' (GET ''job'' ''a.mp3'' (Some ''bytes=0-999'')
      (emptyWorld\<lparr>files := [(''job.mp3'', \<lparr>content = ''0123456789'', locked = False\<rparr>)]\<rparr>))
     = Some ''bytes 0-999/10''
   \<and> payload (GET ''job'' ''a.mp3'' (Some ''bytes=0-999'')
      (emptyWorld\<lparr>files := [(''job.mp3'', \<lparr>content = ''0123456789'', locked = False\<rparr>)]\<rparr>))
     = Bytes ''0123456789''
   \<and> bodyLength (GET ''job'' ''a.mp3'' (Some ''bytes=0-999'')
      (emptyWorld\<lparr>files := [(''job.mp3'', \<lparr>content = ''0123456789'', locked = False\<rparr>)]\<rparr>))
     = 10
   \<and> status (GET ''job'' ''a.mp3'' (Some ''bytes=-5'')
      (emptyWorld\<lparr>files := [(''job.mp3'', \<lparr>content = ''0123456789'', locked = False\<rparr>)]\<rparr>))
     = 500
   \<and> status (GET ''job'' ''a.mp3'' (Some ''bytes=5-2'')
      (emptyWorld\<lparr>files := [(''job.mp3'', \<lparr>content = ''0123456789'', locked = False\<rparr>)]\<rparr>))
     = 500
   \<and> status (GET ''job'' ''%'' (Some ''bytes=2-5'')
      (emptyWorld\<lparr>files := [(''job.mp3'', \<lparr>content = ''0123456789'', locked = False\<rparr>)]\<rparr>))
     = 500
   \<and> status (GET ''job'' ''%'' None
      (emptyWorld\<lparr>files := [(''job.mp3'', \<lparr>content = ''0123456789'', locked = False\<rparr>)]\<rparr>))
     = 500
   \<and> status (GET ''job'' [] (Some ''bytes=2-5'')
      (emptyWorld\<lparr>files := [(''job.mp3'', \<lparr>content = ''0123456789'', locked = False\<rparr>)]\<rparr>))
     = 400
   \<and> status (GET ''job'' [] None
      (emptyWorld\<lparr>files := [(''job.mp3'', \<lparr>content = ''0123456789'', locked = False\<rparr>)]\<rparr>))
     = 400"
  by code_simp

text \<open>
  C8, as amended. Take an artifact-serve request with a non-empty job id that resolves to
  an existing file \<open>a\<close> of a size of at most \<open>2^53\<close> bytes, with a non-empty filename that
  is accepted for \<open>Content-Disposition\<close>. With the header \<open>bytes=s-e\<close>, where \<open>s \<le> e\<close> and
  \<open>e\<close> is below the file size, the answer is 206 with \<open>Content-Range\<close> \<open>bytes s-e/size\<close>,
  the body is the bytes of the file from \<open>s\<close> to \<open>e\<close>, and \<open>Content-Length\<close> is their
  number \<open>e - s + 1\<close>. With the header \<open>bytes=s-\<close>, where \<open>s\<close> is below the file size, the
  same holds with the last byte of the file for \<open>e\<close>. Without a range header the answer
  is 200 with the whole file and \<open>Content-Length\<close> equal to the file size.
\<close>

theorem range_in_file:
  "downloadId \<noteq> [] \<and> filename \<noteq> [] \<and> contentDisposition filename = Inr d
   \<and> find (\<lambda>f. startsWith f downloadId) (readdirSync w) = Some a
   \<and> map_of (files w) a = Some en
   \<and> length (content en) \<le> 9007199254740992 \<longrightarrow>
     (\<forall>s e. s \<le> e \<and> e < length (content en) \<longrightarrow>
        status (GET downloadId filename (Some (''bytes='' @ showNat s @ ''-'' @ showNat e)) w) = 206
        \<and> header ''Content-Range''
             (GET downloadId filename (Some (''bytes='' @ showNat s @ ''-'' @ showNat e)) w)
           = Some (''bytes '' @ showNat s @ ''-'' @ showNat e @ ''/''
                     @ showNat (length (content en)))
        \<and> header ''Content-Length''
             (GET downloadId filename (Some (''bytes='' @ showNat s @ ''-'' @ showNat e)) w)
           = Some (showNat (e - s + 1))
        \<and> payload (GET downloadId filename (Some (''bytes='' @ showNat s @ ''-'' @ showNat e)) w)
           = Bytes (take (e - s + 1) (drop s (content en)))
        \<and> bodyLength (GET downloadId filename (Some (''bytes='' @ showNat s @ ''-'' @ showNat e)) w)
           = e - s + 1)
     \<and> (\<forall>s. s < length (content en) \<longrightarrow>
        status (GET downloadId filename (Some (''bytes='' @ showNat s @ ''-'')) w) = 206
        \<and> header ''Content-Range'' (GET downloadId filename (Some (''bytes='' @ showNat s @ ''-'')) w)
           = Some (''bytes '' @ showNat s @ ''-'' @ showNat (length (content en) - 1) @ ''/''
                     @ showNat (length (content en)))
        \<and> header ''Content-Length'' (GET downloadId filename (Some (''bytes='' @ showNat s @ ''-'')) w)
           = Some (showNat (length (content en) - s))
        \<and> payload (GET downloadId filename (Some (''bytes='' @ showNat s @ ''-'')) w)
           = Bytes (drop s (content en))
        \<and> bodyLength (GET downloadId filename (Some (''bytes='' @ showNat s @ ''-'')) w)
           = length (content en) - s)
     \<and> status (GET downloadId filename None w) = 200
     \<and> header ''Content-Length'' (GET downloadId filename None w)
         = Some (showNat (length (content en)))
     \<and> payload (GET downloadId filename None w) = Bytes (content en)
     \<and> bodyLength (GET downloadId filename None w) = length (content en)"
proof (intro impI, elim conjE)
  assume id: "downloadId \<noteq> []" and fn: "filename \<noteq> []"
    and cd: "contentDisposition filename = Inr d"
    and fd: "find (\<lambda>f. startsWith f downloadId) (readdirSync w) = Some a"
    and en: "map_of (files w) a = Some en"
    and sz: "length (content en) \<le> 9007199254740992"
  let ?sz = "length (content en)"
  note g = GET_resolved[OF id fn fd en]
  have 1: "\<forall>s e. s \<le> e \<and> e < ?sz \<longrightarrow>
        status (GET downloadId filename (Some (''bytes='' @ showNat s @ ''-'' @ showNat e)) w) = 206
        \<and> header ''Content-Range''
             (GET downloadId filename (Some (''bytes='' @ showNat s @ ''-'' @ showNat e)) w)
           = Some (''bytes '' @ showNat s @ ''-'' @ showNat e @ ''/'' @ showNat ?sz)
        \<and> header ''Content-Length''
             (GET downloadId filename (Some (''bytes='' @ showNat s @ ''-'' @ showNat e)) w)
           = Some (showNat (e - s + 1))
        \<and> payload (GET downloadId filename (Some (''bytes='' @ showNat s @ ''-'' @ showNat e)) w)
           = Bytes (take (e - s + 1) (drop s (content en)))
        \<and> bodyLength (GET downloadId filename (Some (''bytes='' @ showNat s @ ''-'' @ showNat e)) w)
           = e - s + 1"
  proof (intro allI impI, elim conjE)
    fix s e assume se: "s \<le> e" and e: "e < ?sz"
    have p1: "(if showNat e \<noteq> [] then parseInt (showNat e) else Some (int ?sz - 1)) = Some (int e)"
      using showNat_digits[of e] by (simp add: parseInt_showNat)
    have eb: "e \<le> 9007199254740991" using e sz by simp
    note r = partial_result[OF cd en range_parts(1)[of s e] p1 se eb, of "contentTypeOf a"]
    have ne: "''bytes='' @ showNat s @ ''-'' @ showNat e \<noteq> []" by simp
    have gg: "GET downloadId filename (Some (''bytes='' @ showNat s @ ''-'' @ showNat e)) w
        = partial (join tempDir a) filename (''bytes='' @ showNat s @ ''-'' @ showNat e) ?sz
            (contentTypeOf a) w"
      unfolding g using ne by simp
    have len: "length (take (e - s + 1) (drop s (content en))) = e - s + 1"
      using se e by simp
    show "status (GET downloadId filename (Some (''bytes='' @ showNat s @ ''-'' @ showNat e)) w) = 206
        \<and> header ''Content-Range''
             (GET downloadId filename (Some (''bytes='' @ showNat s @ ''-'' @ showNat e)) w)
           = Some (''bytes '' @ showNat s @ ''-'' @ showNat e @ ''/'' @ showNat ?sz)
        \<and> header ''Content-Length''
             (GET downloadId filename (Some (''bytes='' @ showNat s @ ''-'' @ showNat e)) w)
           = Some (showNat (e - s + 1))
        \<and> payload (GET downloadId filename (Some (''bytes='' @ showNat s @ ''-'' @ showNat e)) w)
           = Bytes (take (e - s + 1) (drop s (content en)))
        \<and> bodyLength (GET downloadId filename (Some (''bytes='' @ showNat s @ ''-'' @ showNat e)) w)
           = e - s + 1"
      unfolding gg r using len by (simp add: header_def bodyLength_def)
  qed
  have 2: "\<forall>s. s < ?sz \<longrightarrow>
        status (GET downloadId filename (Some (''bytes='' @ showNat s @ ''-'')) w) = 206
        \<and> header ''Content-Range'' (GET downloadId filename (Some (''bytes='' @ showNat s @ ''-'')) w)
           = Some (''bytes '' @ showNat s @ ''-'' @ showNat (?sz - 1) @ ''/'' @ showNat ?sz)
        \<and> header ''Content-Length'' (GET downloadId filename (Some (''bytes='' @ showNat s @ ''-'')) w)
           = Some (showNat (?sz - s))
        \<and> payload (GET downloadId filename (Some (''bytes='' @ showNat s @ ''-'')) w)
           = Bytes (drop s (content en))
        \<and> bodyLength (GET downloadId filename (Some (''bytes='' @ showNat s @ ''-'')) w)
           = ?sz - s"
  proof (intro allI impI)
    fix s assume s: "s < ?sz"
    have p1: "(if ([] :: string) \<noteq> [] then parseInt [] else Some (int ?sz - 1)) = Some (int (?sz - 1))"
      using s by (simp add: of_nat_diff)
    have se: "s \<le> ?sz - 1" using s by simp
    have eb: "?sz - 1 \<le> 9007199254740991" using sz by simp
    note r = partial_result[OF cd en range_parts(2)[of s] p1 se eb, of "contentTypeOf a"]
    have ne: "''bytes='' @ showNat s @ ''-'' \<noteq> []" by simp
    have gg: "GET downloadId filename (Some (''bytes='' @ showNat s @ ''-'')) w
        = partial (join tempDir a) filename (''bytes='' @ showNat s @ ''-'') ?sz (contentTypeOf a) w"
      unfolding g using ne by simp
    have k: "?sz - 1 - s + 1 = ?sz - s" using s by simp
    show "status (GET downloadId filename (Some (''bytes='' @ showNat s @ ''-'')) w) = 206
        \<and> header ''Content-Range'' (GET downloadId filename (Some (''bytes='' @ showNat s @ ''-'')) w)
           = Some (''bytes '' @ showNat s @ ''-'' @ showNat (?sz - 1) @ ''/'' @ showNat ?sz)
        \<and> header ''Content-Length'' (GET downloadId filename (Some (''bytes='' @ showNat s @ ''-'')) w)
           = Some (showNat (?sz - s))
        \<and> payload (GET downloadId filename (Some (''bytes='' @ showNat s @ ''-'')) w)
           = Bytes (drop s (content en))
        \<and> bodyLength (GET downloadId filename (Some (''bytes='' @ showNat s @ ''-'')) w)
           = ?sz - s"
      unfolding gg r k using s by (simp add: header_def bodyLength_def)
  qed
  have 3: "status (GET downloadId filename None w) = 200"
    "header ''Content-Length'' (GET downloadId filename None w) = Some (showNat ?sz)"
    "payload (GET downloadId filename None w) = Bytes (content en)"
    "bodyLength (GET downloadId filename None w) = ?sz"
    unfolding g by (simp_all add: whole_result[OF cd en] header_def bodyLength_def)
  from 1 2 3 show "(\<forall>s e. s \<le> e \<and> e < ?sz \<longrightarrow>
        status (GET downloadId filename (Some (''bytes='' @ showNat s @ ''-'' @ showNat e)) w) = 206
        \<and> header ''Content-Range''
             (GET downloadId filename (Some (''bytes='' @ showNat s @ ''-'' @ showNat e)) w)
           = Some (''bytes '' @ showNat s @ ''-'' @ showNat e @ ''/'' @ showNat ?sz)
        \<and> header ''Content-Length''
             (GET downloadId filename (Some (''bytes='' @ showNat s @ ''-'' @ showNat e)) w)
           = Some (showNat (e - s + 1))
        \<and> payload (GET downloadId filename (Some (''bytes='' @ showNat s @ ''-'' @ showNat e)) w)
           = Bytes (take (e - s + 1) (drop s (content en)))
        \<and> bodyLength (GET downloadId filename (Some (''bytes='' @ showNat s @ ''-'' @ showNat e)) w)
           = e - s + 1)
     \<and> (\<forall>s. s < ?sz \<longrightarrow>
        status (GET downloadId filename (Some (''bytes='' @ showNat s @ ''-'')) w) = 206
        \<and> header ''Content-Range'' (GET downloadId filename (Some (''bytes='' @ showNat s @ ''-'')) w)
           = Some (''bytes '' @ showNat s @ ''-'' @ showNat (?sz - 1) @ ''/'' @ showNat ?sz)
        \<and> header ''Content-Length'' (GET downloadId filename (Some (''bytes='' @ showNat s @ ''-'')) w)
           = Some (showNat (?sz - s))
        \<and> payload (GET downloadId filename (Some (''bytes='' @ showNat s @ ''-'')) w)
           = Bytes (drop s (content en))
        \<and> bodyLength (GET downloadId filename (Some (''bytes='' @ showNat s @ ''-'')) w)
           = ?sz - s)
     \<and> status (GET downloadId filename None w) = 200
     \<and> header ''Content-Length'' (GET downloadId filename None w) = Some (showNat ?sz)
     \<and> payload (GET downloadId filename None w) = Bytes (content en)
     \<and> bodyLength (GET downloadId filename None w) = ?sz"
    by (intro conjI)
qed

theorem range_in_file_witness:
  "status (GET ''job'' ''a.mp3'' (Some ''bytes=2-5'')
      (emptyWorld\<lparr>files := [(''job.mp3'', \<lparr>content = ''0123456789'', locked = False\<rparr>)]\<rparr>))
     = 206
   \<and> header ''Content-Length'' (GET ''job'' ''a.mp3'' (Some ''bytes=2-5'')
      (emptyWorld\<lparr>files := [(''job.mp3'', \<lparr>content = ''0123456789'', locked = False\<rparr>)]\<rparr>))
     = Some (showNat (5 - 2 + 1))
   \<and> payload (GET ''job'' ''a.mp3'' (Some ''bytes=2-5'')
      (emptyWorld\<lparr>files := [(''job.mp3'', \<lparr>content = ''0123456789'', locked = False\<rparr>)]\<rparr>))
     = Bytes ''2345''
   \<and> bodyLength (GET ''job'' ''a.mp3'' (Some ''bytes=2-5'')
      (emptyWorld\<lparr>files := [(''job.mp3'', \<lparr>content = ''0123456789'', locked = False\<rparr>)]\<rparr>))
     = 5 - 2 + 1"
proof -
  define w0 where
    "w0 = emptyWorld\<lparr>files := [(''job.mp3'', \<lparr>content = ''0123456789'', locked = False\<rparr>)]\<rparr>"
  define en where "en = \<lparr>content = ''0123456789'', locked = False\<rparr>"
  have cd: "contentDisposition ''a.mp3''
      = Inr (''attachment; filename='' @ [CHR 0x22] @ ''a.mp3'' @ [CHR 0x22])"
    by code_simp
  have fd: "find (\<lambda>f. startsWith f ''job'') (readdirSync w0) = Some ''job.mp3''"
    by (simp add: w0_def readdirSync_def startsWith_def emptyWorld_def)
  have mo: "map_of (files w0) ''job.mp3'' = Some en" by (simp add: w0_def en_def)
  have sz: "length (content en) \<le> 9007199254740992" by (simp add: en_def)
  have pre: "''job'' \<noteq> [] \<and> ''a.mp3'' \<noteq> []
      \<and> contentDisposition ''a.mp3''
          = Inr (''attachment; filename='' @ [CHR 0x22] @ ''a.mp3'' @ [CHR 0x22])
      \<and> find (\<lambda>f. startsWith f ''job'') (readdirSync w0) = Some ''job.mp3''
      \<and> map_of (files w0) ''job.mp3'' = Some en
      \<and> length (content en) \<le> 9007199254740992"
    using cd fd mo sz by simp
  note r = conjunct1[OF mp[OF range_in_file pre]]
  have se: "(2 :: nat) \<le> 5 \<and> 5 < length (content en)" by (simp add: en_def)
  note q = mp[OF spec[OF spec[OF r, of 2], of 5] se]
  have hd: "''bytes='' @ showNat 2 @ ''-'' @ showNat 5 = ''bytes=2-5''" by code_simp
  have bd: "take (5 - 2 + 1) (drop 2 (content en)) = ''2345''" by (simp add: en_def)
  from q show ?thesis
    unfolding hd bd w0_def by (elim conjE, intro conjI)
qed

end
